theory Spec2Isabelle
  imports Complex_Main
begin

chapter \<open>The chat-ui generation core: a shallow embedding\<close>

text \<open>
  The development follows the TypeScript sources: the text post-processing, the parameter
  merge and the dispatch of \<^verbatim>\<open>generateFromDefaultEndpoint\<close>, the zod schemas of
  \<^verbatim>\<open>src/lib/server/models.ts\<close> and the async generator
  \<^verbatim>\<open>streamToAsyncIterable\<close>. All definitions come first, the lemmas and theorems
  after them.
\<close>

section \<open>JavaScript strings\<close>

text \<open>
  A JavaScript string is a sequence of UTF-16 code units. It is modelled as a \<^typ>\<open>string\<close>
  whose characters are the code units U+0000 .. U+00FF; text with larger code units is
  outside the model. The methods below are the ones the sources call.
\<close>

text \<open>\<^verbatim>\<open>s.startsWith(p)\<close>\<close>

definition startsWith :: "string \<Rightarrow> string \<Rightarrow> bool" where
  "startsWith s p = (take (length p) s = p)"

text \<open>\<^verbatim>\<open>s.endsWith(e)\<close>\<close>

definition endsWith :: "string \<Rightarrow> string \<Rightarrow> bool" where
  "endsWith s e = (length e \<le> length s \<and> drop (length s - length e) s = e)"

text \<open>
  The code units that \<^verbatim>\<open>trimEnd\<close> removes (WhiteSpace and LineTerminator of
  ECMAScript) below U+0100: tab, line feed, vertical tab, form feed, carriage return,
  space and no-break space.
\<close>

definition isWhiteSpace :: "char \<Rightarrow> bool" where
  "isWhiteSpace c = (of_char c \<in> {9, 10, 11, 12, 13, 32, 160 :: nat})"

text \<open>\<^verbatim>\<open>s.trimEnd()\<close>\<close>

definition trimEnd :: "string \<Rightarrow> string" where
  "trimEnd s = rev (dropWhile isWhiteSpace (rev s))"

text \<open>
  \<^verbatim>\<open>s.slice(0, -n)\<close> for a length \<open>n\<close>. In JavaScript \<^verbatim>\<open>-0\<close> is \<^verbatim>\<open>0\<close>, so for
  \<open>n = 0\<close> the call is \<^verbatim>\<open>s.slice(0, 0)\<close>, the empty string; for \<open>n > 0\<close> the end
  index counts from the end of the string and is clamped at \<open>0\<close>.
\<close>

definition slice_0_neg :: "string \<Rightarrow> nat \<Rightarrow> string" where
  "slice_0_neg s n = (if n = 0 then [] else take (length s - n) s)"

section \<open>PostProcessor\<close>

text \<open>
  Modelled from the spec: \<^verbatim>\<open>trimPrefix\<close> is imported from
  \<^verbatim>\<open>$lib/utils/trimPrefix\<close>, which is not among the sources. The spec (PostProcessor,
  steps 1 and 2) says: strip the leading marker, or the echoed prompt, if the text begins
  with it.
\<close>

definition trimPrefix :: "string \<Rightarrow> string \<Rightarrow> string" where
  "trimPrefix input prefix = (if startsWith input prefix then drop (length prefix) input else input)"

text \<open>
  Modelled from the spec: \<^verbatim>\<open>trimSuffix\<close> is imported from
  \<^verbatim>\<open>$lib/utils/trimSuffix\<close>, which is not among the sources. The spec (PostProcessor,
  step 3) says: strip a trailing separator token if present.
\<close>

definition trimSuffix :: "string \<Rightarrow> string \<Rightarrow> string" where
  "trimSuffix input end = (if endsWith input end then take (length input - length end) input else input)"

definition startoftext :: string where
  "startoftext = ''<|startoftext|>''"

definition endoftext :: string where
  "endoftext = ''<|endoftext|>''"

text \<open>
  The body of the loop over the stop sequences (lines 137 to 139 of
  \<^verbatim>\<open>generateFromDefaultEndpoint\<close>):
  \<^verbatim>\<open>if (generated_text.endsWith(stop)) generated_text = generated_text.slice(0, -stop.length).trimEnd()\<close>
\<close>

definition stop_step :: "string \<Rightarrow> string \<Rightarrow> string" where
  "stop_step generated_text stop =
     (if endsWith generated_text stop
      then trimEnd (slice_0_neg generated_text (length stop))
      else generated_text)"

text \<open>
  Lines 131 to 142 of \<^verbatim>\<open>generateFromDefaultEndpoint\<close>, the function the spec calls
  \<^verbatim>\<open>clean\<close>. The constant \<^verbatim>\<open>PUBLIC_SEP_TOKEN\<close> is imported from a file that is not
  among the sources, so it is the parameter \<open>sep\<close>. The loop runs over the stop sequences
  in order, then over the end-of-text marker.
\<close>

definition clean :: "string \<Rightarrow> string \<Rightarrow> string \<Rightarrow> string list \<Rightarrow> string" where
  "clean sep raw prompt stops =
     foldl stop_step
       (trimEnd (trimSuffix (trimPrefix (trimPrefix raw startoftext) prompt) sep))
       (stops @ [endoftext])"

text \<open>
  The five steps as the spec words them (PostProcessor, steps 1 to 5), each a function of
  its own, for comparison with \<^const>\<open>clean\<close>. Step 5 removes the stop sequence as a
  suffix, that is, exactly its own characters.
\<close>

definition spec_strip_bos :: "string \<Rightarrow> string" where
  "spec_strip_bos t = (if startsWith t startoftext then drop (length startoftext) t else t)"

definition spec_strip_prompt :: "string \<Rightarrow> string \<Rightarrow> string" where
  "spec_strip_prompt prompt t = (if startsWith t prompt then drop (length prompt) t else t)"

definition spec_strip_sep :: "string \<Rightarrow> string \<Rightarrow> string" where
  "spec_strip_sep sep t = (if endsWith t sep then take (length t - length sep) t else t)"

definition spec_trim_stop :: "string \<Rightarrow> string \<Rightarrow> string" where
  "spec_trim_stop t stop =
     (if endsWith t stop then trimEnd (take (length t - length stop) t) else t)"

definition clean_spec :: "string \<Rightarrow> string \<Rightarrow> string \<Rightarrow> string list \<Rightarrow> string" where
  "clean_spec sep raw prompt stops =
     foldl spec_trim_stop
       (trimEnd (spec_strip_sep sep (spec_strip_prompt prompt (spec_strip_bos raw))))
       (stops @ [endoftext])"

text \<open>
  The same steps with the stop sequences trimmed before the prompt is stripped; it is used
  to show that the order of the steps matters.
\<close>

definition clean_stops_first :: "string \<Rightarrow> string \<Rightarrow> string \<Rightarrow> string list \<Rightarrow> string" where
  "clean_stops_first sep raw prompt stops =
     trimEnd (trimSuffix (trimPrefix (trimPrefix
       (foldl stop_step raw (stops @ [endoftext])) startoftext) prompt) sep)"

section \<open>JavaScript values\<close>

text \<open>
  The values of JavaScript that the sources handle: what \<^verbatim>\<open>JSON.parse\<close> returns, and
  \<^verbatim>\<open>undefined\<close>. A number is a rational: the model covers the numerals that a double
  holds exactly (\<^verbatim>\<open>JSON.parse\<close> rounds the others, and turns those beyond the range of a
  double into an infinity). An object is the list of its own properties, in order;
  \<^verbatim>\<open>JSON.parse\<close> and object literals give each key once.
\<close>

datatype jsval =
    JUndefined
  | JNull
  | JBool bool
  | JNum rat
  | JStr string
  | JArr "jsval list"
  | JObj "(string \<times> jsval) list"

text \<open>\<^verbatim>\<open>key in data\<close> and \<^verbatim>\<open>data[key]\<close> for an object given by its properties.\<close>

definition has_key :: "(string \<times> jsval) list \<Rightarrow> string \<Rightarrow> bool" where
  "has_key kv k = (k \<in> set (map fst kv))"

definition get_prop :: "(string \<times> jsval) list \<Rightarrow> string \<Rightarrow> jsval" where
  "get_prop kv k = (case map_of kv k of None \<Rightarrow> JUndefined | Some v \<Rightarrow> v)"

section \<open>ConfigValidator: the zod schemas of models.ts\<close>

subsection \<open>The schema language\<close>

text \<open>
  \<^verbatim>\<open>models.ts\<close> builds its validators from the combinators of the zod library. A schema
  is a term of the datatype below, one constructor per combinator the file uses, and
  \<open>zparse\<close> is what \<^verbatim>\<open>schema.parse(value)\<close> does: it returns the parsed value, or the
  issues found, each with the path of the offending field.
\<close>

datatype string_check = SMin nat | SUrl

datatype number_check = NInt | NPositive | NMin rat | NMax rat

datatype seg = Key string | Index nat

datatype issue = Issue (issue_path: "seg list") (issue_code: string)

text \<open>
  A parse that fails is aborted when a value has the wrong type, and merely dirty when
  the types are right and only checks (\<^verbatim>\<open>.min\<close>, \<^verbatim>\<open>.url\<close>, \<^verbatim>\<open>.int\<close>, ...) fail; either
  way it carries the issues found. An array or an object that fails is aborted when one of
  its parts is.
\<close>

datatype failure = Aborted "issue list" | Dirty "issue list"

fun merge_failure :: "failure \<Rightarrow> failure option \<Rightarrow> failure" where
  "merge_failure f None = f"
| "merge_failure (Dirty is) (Some (Dirty is')) = Dirty (is @ is')"
| "merge_failure (Dirty is) (Some (Aborted is')) = Aborted (is @ is')"
| "merge_failure (Aborted is) (Some (Dirty is')) = Aborted (is @ is')"
| "merge_failure (Aborted is) (Some (Aborted is')) = Aborted (is @ is')"

datatype schema =
    ZString "string_check list"
  | ZNumber "number_check list"
  | ZLiteral string
  | ZUndefined
  | ZArray schema
  | ZObject "(string \<times> schema) list" bool
  | ZUnion "schema list"
  | ZOptional schema
  | ZDefault schema jsval
  | ZTransform schema "jsval \<Rightarrow> failure + jsval"

text \<open>
  \<^verbatim>\<open>.min(n)\<close> and \<^verbatim>\<open>.url()\<close> on a string. Whether a string is a URL is decided by the
  platform's \<^verbatim>\<open>URL\<close> constructor; it is the parameter \<open>isURL\<close>.
\<close>

fun string_issue :: "(string \<Rightarrow> bool) \<Rightarrow> seg list \<Rightarrow> string \<Rightarrow> string_check \<Rightarrow> issue list" where
  "string_issue isURL p s (SMin n) = (if length s < n then [Issue p ''too_small''] else [])"
| "string_issue isURL p s SUrl = (if isURL s then [] else [Issue p ''invalid_string''])"

text \<open>\<^verbatim>\<open>.int()\<close>, \<^verbatim>\<open>.positive()\<close>, \<^verbatim>\<open>.min(n)\<close> and \<^verbatim>\<open>.max(n)\<close> on a number.\<close>

fun number_issue :: "seg list \<Rightarrow> rat \<Rightarrow> number_check \<Rightarrow> issue list" where
  "number_issue p x NInt = (if of_int \<lfloor>x\<rfloor> = x then [] else [Issue p ''invalid_type''])"
| "number_issue p x NPositive = (if 0 < x then [] else [Issue p ''too_small''])"
| "number_issue p x (NMin n) = (if n \<le> x then [] else [Issue p ''too_small''])"
| "number_issue p x (NMax n) = (if x \<le> n then [] else [Issue p ''too_big''])"

text \<open>
  The elements of an array, the keys of a shape and the options of a union, each given the
  parsers of its parts. A missing property is parsed as \<^const>\<open>JUndefined\<close>. An object
  schema parses every key of its shape and keeps a key in the output when the input has it
  or its parsed value is defined. A union returns the result of the first option that
  accepts the value; when none does, it fails with the issues of the first option that is
  merely dirty, and with \<open>invalid_union\<close> when every option is aborted.
\<close>

type_synonym parser = "seg list \<Rightarrow> jsval \<Rightarrow> failure + jsval"

fun parse_elems :: "parser \<Rightarrow> seg list \<Rightarrow> nat \<Rightarrow> jsval list \<Rightarrow> failure option \<times> jsval list" where
  "parse_elems parse p i [] = (None, [])"
| "parse_elems parse p i (x # xs) =
     (case parse_elems parse p (Suc i) xs of
        (rest, ys) \<Rightarrow>
          (case parse (p @ [Index i]) x of
             Inl f \<Rightarrow> (Some (merge_failure f rest), ys)
           | Inr y \<Rightarrow> (rest, y # ys)))"

fun parse_shape ::
  "(string \<times> parser) list \<Rightarrow> seg list \<Rightarrow> (string \<times> jsval) list
    \<Rightarrow> failure option \<times> (string \<times> jsval) list" where
  "parse_shape [] p kv = (None, [])"
| "parse_shape ((k, parse) # shape) p kv =
     (case parse_shape shape p kv of
        (rest, out) \<Rightarrow>
          (case parse (p @ [Key k]) (get_prop kv k) of
             Inl f \<Rightarrow> (Some (merge_failure f rest), out)
           | Inr y \<Rightarrow> (rest, if y \<noteq> JUndefined \<or> has_key kv k then (k, y) # out else out)))"

fun parse_union :: "parser list \<Rightarrow> seg list \<Rightarrow> jsval \<Rightarrow> issue list option \<Rightarrow> failure + jsval" where
  "parse_union [] p v dirty =
     (case dirty of
        Some is \<Rightarrow> Inl (Dirty is)
      | None \<Rightarrow> Inl (Aborted [Issue p ''invalid_union'']))"
| "parse_union (parse # options) p v dirty =
     (case parse p v of
        Inr out \<Rightarrow> Inr out
      | Inl (Dirty is) \<Rightarrow>
          parse_union options p v (case dirty of None \<Rightarrow> Some is | Some first \<Rightarrow> Some first)
      | Inl (Aborted _) \<Rightarrow> parse_union options p v dirty)"

text \<open>
  \<open>zparse isURL schema path value\<close>. A string or a number is checked by each of its
  checks, in order. An object schema drops the keys its shape does not know, or with
  \<^verbatim>\<open>.passthrough()\<close> (the flag of \<^const>\<open>ZObject\<close>) copies them after the known ones.
  \<^verbatim>\<open>.optional()\<close> accepts \<^verbatim>\<open>undefined\<close>, \<^verbatim>\<open>.default(d)\<close> parses \<open>d\<close> in its place. A
  \<^verbatim>\<open>.transform\<close> runs on a valid value only; an exception thrown inside it ends the
  parse, and is reported as an aborted parse.
\<close>

primrec zparse :: "(string \<Rightarrow> bool) \<Rightarrow> schema \<Rightarrow> seg list \<Rightarrow> jsval \<Rightarrow> failure + jsval" where
  "zparse isURL (ZString checks) = (\<lambda>p v.
     case v of
        JStr s \<Rightarrow>
          (case concat (map (string_issue isURL p s) checks) of
             [] \<Rightarrow> Inr v
           | i # is \<Rightarrow> Inl (Dirty (i # is)))
      | _ \<Rightarrow> Inl (Aborted [Issue p ''invalid_type'']))"
| "zparse isURL (ZNumber checks) = (\<lambda>p v.
     case v of
        JNum x \<Rightarrow>
          (case concat (map (number_issue p x) checks) of
             [] \<Rightarrow> Inr v
           | i # is \<Rightarrow> Inl (Dirty (i # is)))
      | _ \<Rightarrow> Inl (Aborted [Issue p ''invalid_type'']))"
| "zparse isURL (ZLiteral l) = (\<lambda>p v.
     if v = JStr l then Inr v else Inl (Aborted [Issue p ''invalid_literal'']))"
| "zparse isURL ZUndefined = (\<lambda>p v.
     if v = JUndefined then Inr v else Inl (Aborted [Issue p ''invalid_type'']))"
| "zparse isURL (ZArray s) = (\<lambda>p v.
     case v of
        JArr xs \<Rightarrow>
          (case parse_elems (zparse isURL s) p 0 xs of
             (None, ys) \<Rightarrow> Inr (JArr ys)
           | (Some f, _) \<Rightarrow> Inl f)
      | _ \<Rightarrow> Inl (Aborted [Issue p ''invalid_type'']))"
| "zparse isURL (ZObject shape passthrough) = (\<lambda>p v.
     case v of
        JObj kv \<Rightarrow>
          (case parse_shape (map (map_prod id (zparse isURL)) shape) p kv of
             (None, out) \<Rightarrow>
               Inr (JObj (out @
                 (if passthrough then filter (\<lambda>(k, _). k \<notin> set (map fst shape)) kv else [])))
           | (Some f, _) \<Rightarrow> Inl f)
      | _ \<Rightarrow> Inl (Aborted [Issue p ''invalid_type'']))"
| "zparse isURL (ZUnion options) = (\<lambda>p v.
     parse_union (map (zparse isURL) options) p v None)"
| "zparse isURL (ZOptional s) = (\<lambda>p v.
     if v = JUndefined then Inr JUndefined else zparse isURL s p v)"
| "zparse isURL (ZDefault s d) = (\<lambda>p v.
     zparse isURL s p (if v = JUndefined then d else v))"
| "zparse isURL (ZTransform s f) = (\<lambda>p v.
     case zparse isURL s p v of Inl failed \<Rightarrow> Inl failed | Inr out \<Rightarrow> f out)"

text \<open>
  \<^verbatim>\<open>a.merge(b)\<close>: the shape \<^verbatim>\<open>{...a.shape, ...b.shape}\<close> with the unknown-key policy
  of \<open>b\<close>.
\<close>

fun zmerge :: "schema \<Rightarrow> schema \<Rightarrow> schema" where
  "zmerge (ZObject a pa) (ZObject b pb) =
     ZObject
       (map (\<lambda>(k, s). (k, case map_of b k of Some s' \<Rightarrow> s' | None \<Rightarrow> s)) a
        @ filter (\<lambda>(k, _). k \<notin> set (map fst a)) b)
       pb"
| "zmerge a b = a"

subsection \<open>The schemas\<close>

text \<open>
  The environment values \<^verbatim>\<open>OPENAI_API_KEY\<close> and \<^verbatim>\<open>HF_ACCESS_TOKEN\<close> are parameters.
  The schemas below carry the names of the constants of \<^verbatim>\<open>models.ts\<close> they embed, field
  by field and in the order of the file.
\<close>

definition openAICompatibleEndpoint :: "string \<Rightarrow> schema" where
  "openAICompatibleEndpoint OPENAI_API_KEY = ZObject
     [(''host'', ZLiteral ''openai-compatible''),
      (''baseURL'', ZDefault (ZString [SUrl]) (JStr ''https://api.openai.com/v1'')),
      (''apiKey'', ZDefault (ZOptional (ZString [])) (JStr OPENAI_API_KEY)),
      (''type'', ZDefault (ZUnion [ZLiteral ''completions'', ZLiteral ''chat_completions''])
                  (JStr ''chat_completions''))]
     False"

definition sagemakerEndpoint :: schema where
  "sagemakerEndpoint = ZObject
     [(''host'', ZLiteral ''sagemaker''),
      (''url'', ZString [SUrl]),
      (''accessKey'', ZString [SMin 1]),
      (''secretKey'', ZString [SMin 1]),
      (''sessionToken'', ZOptional (ZString []))]
     False"

definition tgiEndpoint :: "string \<Rightarrow> schema" where
  "tgiEndpoint HF_ACCESS_TOKEN = ZObject
     [(''host'', ZUnion [ZLiteral ''tgi'', ZUndefined]),
      (''url'', ZString [SUrl]),
      (''authorization'', ZDefault (ZString [SMin 1]) (JStr (''Bearer '' @ HF_ACCESS_TOKEN)))]
     False"

definition commonEndpoint :: schema where
  "commonEndpoint = ZObject
     [(''weight'', ZDefault (ZNumber [NInt, NPositive]) (JNum 1))]
     False"

definition endpoint :: "string \<Rightarrow> string \<Rightarrow> schema" where
  "endpoint HF_ACCESS_TOKEN OPENAI_API_KEY = ZUnion
     [zmerge (openAICompatibleEndpoint OPENAI_API_KEY) commonEndpoint,
      zmerge sagemakerEndpoint commonEndpoint,
      zmerge (tgiEndpoint HF_ACCESS_TOKEN) commonEndpoint]"

text \<open>\<^verbatim>\<open>data.host\<close> for the value a schema has parsed.\<close>

definition host_of :: "jsval \<Rightarrow> jsval" where
  "host_of data = (case data of JObj kv \<Rightarrow> get_prop kv ''host'' | _ \<Rightarrow> JUndefined)"

definition combinedEndpoint :: "(string \<Rightarrow> bool) \<Rightarrow> string \<Rightarrow> string \<Rightarrow> schema" where
  "combinedEndpoint isURL HF_ACCESS_TOKEN OPENAI_API_KEY =
     ZTransform (endpoint HF_ACCESS_TOKEN OPENAI_API_KEY) (\<lambda>data.
       if host_of data = JStr ''tgi'' \<or> host_of data = JUndefined then
         zparse isURL (zmerge (tgiEndpoint HF_ACCESS_TOKEN) commonEndpoint) [] data
       else if host_of data = JStr ''sagemaker'' then
         zparse isURL (zmerge sagemakerEndpoint commonEndpoint) [] data
       else if host_of data = JStr ''openai-compatible'' then
         zparse isURL (zmerge (openAICompatibleEndpoint OPENAI_API_KEY) commonEndpoint) [] data
       else Inl (Aborted [Issue [] ''Invalid host'']))"

definition default_chatPromptTemplate :: string where
  "default_chatPromptTemplate =
     ''{{preprompt}}'' @
     ''{{#each messages}}'' @
     ''{{#ifUser}}{{@root.userMessageToken}}{{content}}{{@root.userMessageEndToken}}{{/ifUser}}'' @
     ''{{#ifAssistant}}{{@root.assistantMessageToken}}{{content}}{{@root.assistantMessageEndToken}}{{/ifAssistant}}'' @
     ''{{/each}}'' @
     ''{{assistantMessageToken}}''"

definition modelConfig_shape :: "(string \<Rightarrow> bool) \<Rightarrow> string \<Rightarrow> string \<Rightarrow> (string \<times> schema) list" where
  "modelConfig_shape isURL HF_ACCESS_TOKEN OPENAI_API_KEY =
     [(''id'', ZOptional (ZString [])),
      (''name'', ZString [SMin 1]),
      (''displayName'', ZOptional (ZString [SMin 1])),
      (''description'', ZOptional (ZString [SMin 1])),
      (''websiteUrl'', ZOptional (ZString [SUrl])),
      (''modelUrl'', ZOptional (ZString [SUrl])),
      (''datasetName'', ZOptional (ZString [SMin 1])),
      (''datasetUrl'', ZOptional (ZString [SUrl])),
      (''userMessageToken'', ZDefault (ZString []) (JStr '''')),
      (''userMessageEndToken'', ZDefault (ZString []) (JStr '''')),
      (''assistantMessageToken'', ZDefault (ZString []) (JStr '''')),
      (''assistantMessageEndToken'', ZDefault (ZString []) (JStr '''')),
      (''messageEndToken'', ZDefault (ZString []) (JStr '''')),
      (''preprompt'', ZDefault (ZString []) (JStr '''')),
      (''prepromptUrl'', ZOptional (ZString [SUrl])),
      (''chatPromptTemplate'', ZDefault (ZString []) (JStr default_chatPromptTemplate)),
      (''promptExamples'', ZOptional (ZArray (ZObject
         [(''title'', ZString [SMin 1]),
          (''prompt'', ZString [SMin 1])]
         False))),
      (''endpoints'', ZOptional (ZArray (combinedEndpoint isURL HF_ACCESS_TOKEN OPENAI_API_KEY))),
      (''parameters'', ZOptional (ZObject
         [(''temperature'', ZNumber [NMin 0, NMax 1]),
          (''truncate'', ZNumber [NInt, NPositive]),
          (''max_new_tokens'', ZNumber [NInt, NPositive]),
          (''stop'', ZOptional (ZArray (ZString []))),
          (''top_p'', ZOptional (ZNumber [NPositive])),
          (''top_k'', ZOptional (ZNumber [NPositive])),
          (''repetition_penalty'', ZOptional (ZNumber [NMin (- 2), NMax 2]))]
         True))]"

definition modelConfig :: "(string \<Rightarrow> bool) \<Rightarrow> string \<Rightarrow> string \<Rightarrow> schema" where
  "modelConfig isURL HF_ACCESS_TOKEN OPENAI_API_KEY =
     ZObject (modelConfig_shape isURL HF_ACCESS_TOKEN OPENAI_API_KEY) False"

text \<open>
  \<^verbatim>\<open>z.array(modelConfig).parse(JSON.parse(MODELS))\<close>, given the value that
  \<^verbatim>\<open>JSON.parse(MODELS)\<close> returns.
\<close>

definition modelsRaw :: "(string \<Rightarrow> bool) \<Rightarrow> string \<Rightarrow> string \<Rightarrow> jsval \<Rightarrow> failure + jsval" where
  "modelsRaw isURL HF_ACCESS_TOKEN OPENAI_API_KEY models_json =
     zparse isURL (ZArray (modelConfig isURL HF_ACCESS_TOKEN OPENAI_API_KEY)) [] models_json"

text \<open>
  The shape of a schema without one of its keys: what the object schema would be had the
  key not been declared. It is used to state that a key has no effect on a parse.
\<close>

fun without_key :: "string \<Rightarrow> schema \<Rightarrow> schema" where
  "without_key k (ZObject shape passthrough) =
     ZObject (filter (\<lambda>(k', _). k' \<noteq> k) shape) passthrough"
| "without_key k s = s"

section \<open>StreamAdapter: streamToAsyncIterable\<close>

text \<open>
  What a JavaScript exception carries: \<^verbatim>\<open>new Error(message)\<close>, a \<^verbatim>\<open>TypeError\<close> or a
  \<^verbatim>\<open>SyntaxError\<close> raised by the platform, or the reason some outside party rejected with.
\<close>

datatype js_error = Error string | TypeError | SyntaxError | Rejected string

text \<open>
  What \<^verbatim>\<open>await reader.read()\<close> gives: \<^verbatim>\<open>{done: false, value}\<close>, \<^verbatim>\<open>{done: true}\<close>, or a
  rejection. A reader is given by the result of each of its reads, the first read being
  number \<open>0\<close>; it need never report \<^verbatim>\<open>done\<close>.
\<close>

datatype 'a read_result = Value 'a | Done | Rejects js_error

type_synonym 'a reader = "nat \<Rightarrow> 'a read_result"

text \<open>
  An async generator object is suspended at its start, suspended at a \<^verbatim>\<open>yield\<close>, or
  completed. The state of the adapter holds, besides, whether the stream is locked to a
  reader and how often \<^verbatim>\<open>read\<close> and \<^verbatim>\<open>releaseLock\<close> have been called.
\<close>

datatype gen_state = SuspendedStart | SuspendedYield | Completed

record adapter =
  gen :: gen_state
  locked :: bool
  reads :: nat
  releases :: nat

text \<open>A generator object just made from an unlocked stream: no line of the body has run.\<close>

definition fresh :: adapter where
  "fresh = \<lparr>gen = SuspendedStart, locked = False, reads = 0, releases = 0\<rparr>"

text \<open>
  The consumer resumes the generator with \<^verbatim>\<open>next()\<close>, \<^verbatim>\<open>return()\<close> or \<^verbatim>\<open>throw(e)\<close>, and
  gets a value, \<^verbatim>\<open>{done: true}\<close>, or a rejection.
\<close>

datatype request = Next | Return | Throw js_error

datatype 'a outcome = Yielded 'a | Finished | Threw js_error

text \<open>\<^verbatim>\<open>reader.releaseLock()\<close>, line 13.\<close>

definition releaseLock :: "adapter \<Rightarrow> adapter" where
  "releaseLock s = s\<lparr>locked := False, releases := releases s + 1\<rparr>"

text \<open>
  One round of the loop of lines 7 to 11, from \<^verbatim>\<open>await reader.read()\<close> to the next
  \<^verbatim>\<open>yield\<close>, or out of the \<^verbatim>\<open>try\<close> block through \<^verbatim>\<open>finally\<close> when the reader is done or
  the read rejects.
\<close>

definition read_round :: "'a reader \<Rightarrow> adapter \<Rightarrow> 'a outcome \<times> adapter" where
  "read_round rd s =
     (case rd (reads s) of
        Value v \<Rightarrow> (Yielded v, s\<lparr>gen := SuspendedYield, reads := reads s + 1\<rparr>)
      | Done \<Rightarrow> (Finished, releaseLock (s\<lparr>gen := Completed, reads := reads s + 1\<rparr>))
      | Rejects e \<Rightarrow> (Threw e, releaseLock (s\<lparr>gen := Completed, reads := reads s + 1\<rparr>)))"

text \<open>
  One request to the generator. At its start, \<^verbatim>\<open>next()\<close> runs line 5
  (\<^verbatim>\<open>stream.getReader()\<close>, which throws for a locked stream, outside the \<^verbatim>\<open>try\<close> block)
  and enters the loop, while \<^verbatim>\<open>return()\<close> and \<^verbatim>\<open>throw(e)\<close> complete the generator
  without running its body. At a \<^verbatim>\<open>yield\<close>, \<^verbatim>\<open>next()\<close> goes round the loop, while
  \<^verbatim>\<open>return()\<close> and \<^verbatim>\<open>throw(e)\<close> leave the \<^verbatim>\<open>try\<close> block through \<^verbatim>\<open>finally\<close>. A
  completed generator runs no code.
\<close>

definition gen_step :: "'a reader \<Rightarrow> request \<Rightarrow> adapter \<Rightarrow> 'a outcome \<times> adapter" where
  "gen_step rd req s =
     (case gen s of
        SuspendedStart \<Rightarrow>
          (case req of
             Next \<Rightarrow>
               if locked s then (Threw TypeError, s\<lparr>gen := Completed\<rparr>)
               else read_round rd (s\<lparr>locked := True\<rparr>)
           | Return \<Rightarrow> (Finished, s\<lparr>gen := Completed\<rparr>)
           | Throw e \<Rightarrow> (Threw e, s\<lparr>gen := Completed\<rparr>))
      | SuspendedYield \<Rightarrow>
          (case req of
             Next \<Rightarrow> read_round rd s
           | Return \<Rightarrow> (Finished, releaseLock (s\<lparr>gen := Completed\<rparr>))
           | Throw e \<Rightarrow> (Threw e, releaseLock (s\<lparr>gen := Completed\<rparr>)))
      | Completed \<Rightarrow>
          (case req of
             Next \<Rightarrow> (Finished, s)
           | Return \<Rightarrow> (Finished, s)
           | Throw e \<Rightarrow> (Threw e, s)))"

text \<open>Any sequence of requests, one after the other.\<close>

definition run_requests :: "'a reader \<Rightarrow> request list \<Rightarrow> adapter \<Rightarrow> adapter" where
  "run_requests rd reqs s = foldl (\<lambda>s req. snd (gen_step rd req s)) s reqs"

text \<open>
  The consumer \<^verbatim>\<open>for await (const value of streamToAsyncIterable(stream)) body\<close>. The
  body, given the number of values consumed before and the value, goes on, breaks out of
  the loop, or throws. The loop calls \<^verbatim>\<open>next()\<close>; on a value it runs the body, and when
  the body breaks or throws it calls \<^verbatim>\<open>return()\<close> before it leaves. The loop ends
  normally (\<open>None\<close>) or with an error. Since neither the reader nor the body need ever
  stop, the loop takes fuel: one unit per value.
\<close>

datatype action = Continue | Break | Raise js_error

fun for_await ::
  "nat \<Rightarrow> 'a reader \<Rightarrow> (nat \<Rightarrow> 'a \<Rightarrow> action) \<Rightarrow> nat \<Rightarrow> adapter \<Rightarrow> (js_error option \<times> adapter) option"
where
  "for_await 0 rd body i s = None"
| "for_await (Suc fuel) rd body i s =
     (case gen_step rd Next s of
        (Yielded v, s') \<Rightarrow>
          (case body i v of
             Continue \<Rightarrow> for_await fuel rd body (Suc i) s'
           | Break \<Rightarrow> Some (None, snd (gen_step rd Return s'))
           | Raise e \<Rightarrow> Some (Some e, snd (gen_step rd Return s')))
      | (Finished, s') \<Rightarrow> Some (None, s')
      | (Threw e, s') \<Rightarrow> Some (Some e, s'))"

text \<open>
  The loop has an exit at round \<open>n\<close> when the reader's read number \<open>n\<close> is not a value, or
  the body does not go on after it.
\<close>

definition exit_at :: "'a reader \<Rightarrow> (nat \<Rightarrow> 'a \<Rightarrow> action) \<Rightarrow> nat \<Rightarrow> bool" where
  "exit_at rd body n = (case rd n of Value v \<Rightarrow> body n v \<noteq> Continue | _ \<Rightarrow> True)"

section \<open>GenerationClient: the pump of the OpenAI-compatible path\<close>

text \<open>
  Lines 69 to 82 of \<^verbatim>\<open>generateFromDefaultEndpoint\<close>: the \<^verbatim>\<open>start\<close> function of the
  readable stream consumes the completion with \<^verbatim>\<open>for await\<close>, and \<^verbatim>\<open>cancel\<close> aborts the
  controller. JavaScript runs one task at a time, so the loop is interleaved with the rest
  only where it awaits the next chunk. The state holds the abort flag, whether the loop
  awaits a chunk, how many chunks it has requested from upstream, and the texts enqueued.
\<close>

datatype pump_phase = Awaiting | Closed | Errored

record pump =
  aborted :: bool
  phase :: pump_phase
  requested :: nat
  enqueued :: "string list"

text \<open>
  What can happen while the loop awaits: \<^verbatim>\<open>cancel()\<close> is called, the chunk requested
  arrives (given by the texts of its \<^verbatim>\<open>choices\<close>), upstream reports the end of the
  completion, or the request fails.
\<close>

datatype pump_event = Cancel | Chunk "string list" | End_of_completion | Failure js_error

text \<open>When \<^verbatim>\<open>start\<close> is called, the loop requests the first chunk and awaits it.\<close>

definition pump_start :: pump where
  "pump_start = \<lparr>aborted = False, phase = Awaiting, requested = 1, enqueued = []\<rparr>"

text \<open>
  On a chunk the loop body runs: with the signal aborted it breaks and the stream is
  closed; otherwise \<^verbatim>\<open>chunk.choices[0].text\<close> is enqueued (a \<^verbatim>\<open>TypeError\<close> when there is
  no choice), and the loop requests the next chunk.
\<close>

definition pump_step :: "pump \<Rightarrow> pump_event \<Rightarrow> pump" where
  "pump_step s ev =
     (case ev of
        Cancel \<Rightarrow> s\<lparr>aborted := True\<rparr>
      | Chunk choices \<Rightarrow>
          if phase s \<noteq> Awaiting then s
          else if aborted s then s\<lparr>phase := Closed\<rparr>
          else (case choices of
                  [] \<Rightarrow> s\<lparr>phase := Errored\<rparr>
                | text # _ \<Rightarrow> s\<lparr>enqueued := enqueued s @ [text], requested := requested s + 1\<rparr>)
      | End_of_completion \<Rightarrow> if phase s = Awaiting then s\<lparr>phase := Closed\<rparr> else s
      | Failure e \<Rightarrow> if phase s = Awaiting then s\<lparr>phase := Errored\<rparr> else s)"

definition pump_run :: "pump_event list \<Rightarrow> pump" where
  "pump_run evs = foldl pump_step pump_start evs"

text \<open>
  The states the adapter can be in: before the body starts the stream is unlocked and
  nothing is read or released; at a \<^verbatim>\<open>yield\<close> the reader holds the lock; after completion
  the lock is free, released once if the body ever ran.
\<close>

definition adapter_ok :: "adapter \<Rightarrow> bool" where
  "adapter_ok s =
     (case gen s of
        SuspendedStart \<Rightarrow> \<not> locked s \<and> reads s = 0 \<and> releases s = 0
      | SuspendedYield \<Rightarrow> locked s \<and> 0 < reads s \<and> releases s = 0
      | Completed \<Rightarrow> \<not> locked s \<and> releases s = (if 0 < reads s then 1 else 0))"

text \<open>
  A run of the function on the OpenAI-compatible path, seen from outside: upstream answers
  the request in flight, and the caller may at any moment cancel what it asked for. The
  function has no parameter for a signal (lines 15 to 18); its \<^verbatim>\<open>AbortController\<close> is a
  local (line 27) that only \<^verbatim>\<open>cancel()\<close> of the stream aborts (lines 79 to 81); and the
  function, the only reader of that stream, reads it to its end and never cancels it
  (lines 114 to 127). So a cancellation by the caller reaches no line of the function:
  the state stays as it is.
\<close>

datatype upstream_event = Chunk_arrives "string list" | Completion_ends | Request_fails js_error

datatype run_event = Caller_cancels | Upstream upstream_event

fun pump_event_of :: "upstream_event \<Rightarrow> pump_event" where
  "pump_event_of (Chunk_arrives choices) = Chunk choices"
| "pump_event_of Completion_ends = End_of_completion"
| "pump_event_of (Request_fails e) = Failure e"

fun openai_run_step :: "pump \<Rightarrow> run_event \<Rightarrow> pump" where
  "openai_run_step s Caller_cancels = s"
| "openai_run_step s (Upstream u) = pump_step s (pump_event_of u)"

definition openai_run :: "run_event list \<Rightarrow> pump" where
  "openai_run evs = foldl openai_run_step pump_start evs"

text \<open>What upstream did in a run, as the events of the pump.\<close>

fun upstream_events :: "run_event list \<Rightarrow> pump_event list" where
  "upstream_events [] = []"
| "upstream_events (Caller_cancels # evs) = upstream_events evs"
| "upstream_events (Upstream u # evs) = pump_event_of u # upstream_events evs"

section \<open>GenerationClient: generateFromDefaultEndpoint\<close>

subsection \<open>The effective parameters\<close>

text \<open>
  A parameter object is a map from its keys to their values. Lines 19 to 23:
  \<^verbatim>\<open>{...defaultModel.parameters, ...parameters, return_full_text: false}\<close>; the request's
  \<^verbatim>\<open>parameters\<close> are optional, and spreading \<^verbatim>\<open>undefined\<close> adds nothing.
\<close>

type_synonym obj = "string \<rightharpoonup> jsval"

definition newParameters :: "obj \<Rightarrow> obj option \<Rightarrow> obj" where
  "newParameters defaults parameters =
     (defaults ++ (case parameters of None \<Rightarrow> Map.empty | Some ps \<Rightarrow> ps))
       (''return_full_text'' \<mapsto> JBool False)"

text \<open>
  \<^verbatim>\<open>newParameters?.stop ?? []\<close>, for a \<^verbatim>\<open>stop\<close> of its declared type, an array of
  strings or nothing.
\<close>

definition stop_sequences :: "obj \<Rightarrow> string list" where
  "stop_sequences newParams =
     (case newParams ''stop'' of
        Some (JArr xs) \<Rightarrow> concat (map (\<lambda>x. case x of JStr s \<Rightarrow> [s] | _ \<Rightarrow> []) xs)
      | _ \<Rightarrow> [])"

subsection \<open>The model, the endpoint and the outside world\<close>

text \<open>What the function reads of \<^verbatim>\<open>defaultModel\<close>.\<close>

record backend_model =
  model_id :: "string option"
  model_name :: string
  model_parameters :: obj

text \<open>
  \<^verbatim>\<open>modelEndpoint\<close> is not among the sources; the endpoint it returns is a parameter of
  the function. An endpoint is given by the fields the function reads, by host:
  \<^verbatim>\<open>sagemaker\<close> (\<open>url\<close>, \<open>accessKey\<close>, \<open>secretKey\<close>, \<open>sessionToken\<close>),
  \<^verbatim>\<open>openai-compatible\<close> (\<open>url\<close>, \<open>apiKey\<close>), and any other host (\<open>url\<close>,
  \<open>authorization\<close>).
\<close>

datatype Endpoint =
    SageMaker string string string "string option"
  | OpenAICompatible "string option" "string option"
  | TGI string string

text \<open>
  The calls that leave the process: \<^verbatim>\<open>aws.fetch\<close> (access key, secret key, session token,
  url, body), \<^verbatim>\<open>openai.completions.create\<close> (API key, base URL, model, prompt,
  \<open>max_tokens\<close>, \<open>stop\<close>, \<open>temperature\<close>) and \<^verbatim>\<open>fetch\<close> (url, \<open>Authorization\<close> header,
  body). A body is the object given to \<^verbatim>\<open>JSON.stringify\<close>.
\<close>

datatype upstream_call =
    AwsFetch string string "string option" string obj
  | OpenAICompletionsCreate string "string option" string string
      "jsval option" "jsval option" "jsval option"
  | Fetch string string obj

text \<open>
  An HTTP response as \<^verbatim>\<open>fetch\<close> delivers it: the status and the body, absent
  (\<^verbatim>\<open>null\<close>) or a sequence of byte chunks, each given by the text it decodes to. A
  completion of the OpenAI client is the sequence of its chunks, each given by the texts
  of its \<open>choices\<close>. Failures of the transport after the response has begun are outside
  the model.
\<close>

record http_response =
  http_status :: nat
  http_chunks :: "string list option"

text \<open>
  The outside world answers each call, or rejects it. \<^verbatim>\<open>JSON.parse\<close> belongs to the
  platform: it returns a value, or nothing when it throws a \<^verbatim>\<open>SyntaxError\<close>.
\<close>

record world =
  aws_fetch :: "upstream_call \<Rightarrow> js_error + http_response"
  openai_completions_create :: "upstream_call \<Rightarrow> js_error + string list list"
  fetch :: "upstream_call \<Rightarrow> js_error + http_response"
  JSON_parse :: "string \<Rightarrow> jsval option"

subsection \<open>The response\<close>

text \<open>
  The \<^verbatim>\<open>Response\<close> the function holds after the dispatch. The chunks of its body are
  byte arrays when it comes from \<^verbatim>\<open>fetch\<close> and strings when it is built around the
  stream of lines 69 to 82; the stream ends by closing or with an error.
\<close>

datatype chunk = Uint8Array string | StringChunk string

record response =
  status :: nat
  body_stream :: "(chunk list \<times> js_error option) option"

definition response_of_http :: "http_response \<Rightarrow> response" where
  "response_of_http r =
     \<lparr>status = http_status r,
      body_stream = map_option (\<lambda>cs. (map Uint8Array cs, None)) (http_chunks r)\<rparr>"

text \<open>
  The stream of lines 69 to 82 when nobody cancels it: the pump runs over the chunks of
  the completion to its end; the texts enqueued are the chunks of the stream, and the
  stream is errored when the pump is.
\<close>

definition completion_stream :: "string list list \<Rightarrow> chunk list \<times> js_error option" where
  "completion_stream completion =
     (let s = pump_run (map Chunk completion @ [End_of_completion])
      in (map StringChunk (enqueued s), if phase s = Errored then Some TypeError else None))"

text \<open>\<^verbatim>\<open>resp.ok\<close>\<close>

definition response_ok :: "response \<Rightarrow> bool" where
  "response_ok resp = (200 \<le> status resp \<and> status resp \<le> 299)"

text \<open>
  \<^verbatim>\<open>decoder.decode(value, { stream: true })\<close>: the text of a byte array; a
  \<^verbatim>\<open>TypeError\<close> for a value that is not a buffer.
\<close>

fun decode :: "chunk \<Rightarrow> js_error + string" where
  "decode (Uint8Array bytes_text) = Inr bytes_text"
| "decode (StringChunk _) = Inl TypeError"

text \<open>
  The loop of lines 119 to 124 over the chunks the reader delivers; the last read reports
  \<^verbatim>\<open>done\<close> with no value, which decodes to the empty string, or rejects when the stream is
  errored.
\<close>

fun read_all :: "chunk list \<Rightarrow> js_error option \<Rightarrow> string \<Rightarrow> js_error + string" where
  "read_all [] ending result = (case ending of None \<Rightarrow> Inr result | Some e \<Rightarrow> Inl e)"
| "read_all (c # cs) ending result =
     (case decode c of
        Inl e \<Rightarrow> Inl e
      | Inr decoded \<Rightarrow> read_all cs ending (result @ decoded))"

text \<open>\<^verbatim>\<open>await resp.text()\<close>; a response without a body has the empty text.\<close>

definition response_text :: "response \<Rightarrow> js_error + string" where
  "response_text resp =
     (case body_stream resp of
        None \<Rightarrow> Inr []
      | Some (cs, ending) \<Rightarrow> read_all cs ending [])"

subsection \<open>Reading the generated text\<close>

text \<open>
  \<^verbatim>\<open>results[0]\<close> for whatever \<^verbatim>\<open>JSON.parse\<close> returned: the first element of an array,
  the property \<open>0\<close> of an object, the first character of a string, \<^verbatim>\<open>undefined\<close> when
  there is none, and a \<^verbatim>\<open>TypeError\<close> on \<^verbatim>\<open>null\<close> and \<^verbatim>\<open>undefined\<close>.
\<close>

definition index0 :: "jsval \<Rightarrow> js_error + jsval" where
  "index0 results =
     (case results of
        JUndefined \<Rightarrow> Inl TypeError
      | JNull \<Rightarrow> Inl TypeError
      | JArr xs \<Rightarrow> Inr (case xs of [] \<Rightarrow> JUndefined | x # _ \<Rightarrow> x)
      | JObj kv \<Rightarrow> Inr (get_prop kv ''0'')
      | JStr s \<Rightarrow> Inr (case s of [] \<Rightarrow> JUndefined | c # _ \<Rightarrow> JStr [c])
      | _ \<Rightarrow> Inr JUndefined)"

text \<open>\<^verbatim>\<open>x.generated_text\<close>\<close>

definition generated_text_of :: "jsval \<Rightarrow> js_error + jsval" where
  "generated_text_of x =
     (case x of
        JUndefined \<Rightarrow> Inl TypeError
      | JNull \<Rightarrow> Inl TypeError
      | JObj kv \<Rightarrow> Inr (get_prop kv ''generated_text'')
      | _ \<Rightarrow> Inr JUndefined)"

text \<open>
  The first argument of \<^verbatim>\<open>trimPrefix\<close> has to be a string: on any other value the call of
  its \<^verbatim>\<open>startsWith\<close> is a \<^verbatim>\<open>TypeError\<close>.
\<close>

definition as_string :: "jsval \<Rightarrow> js_error + string" where
  "as_string v = (case v of JStr s \<Rightarrow> Inr s | _ \<Rightarrow> Inl TypeError)"

text \<open>An exception ends the function: the rest runs only on a value.\<close>

definition and_then :: "js_error + 'a \<Rightarrow> ('a \<Rightarrow> js_error + 'b) \<Rightarrow> js_error + 'b" where
  "and_then r f = (case r of Inl e \<Rightarrow> Inl e | Inr x \<Rightarrow> f x)"

subsection \<open>The function\<close>

text \<open>
  Lines 31 to 103: one call, chosen by the host of the endpoint. The result is the list
  of the calls made and the response, or the exception of the call.
\<close>

definition dispatch ::
  "world \<Rightarrow> backend_model \<Rightarrow> Endpoint \<Rightarrow> string \<Rightarrow> obj
    \<Rightarrow> upstream_call list \<times> (js_error + response)" where
  "dispatch w defaultModel randomEndpoint prompt newParams =
     (case randomEndpoint of
        SageMaker url accessKey secretKey sessionToken \<Rightarrow>
          (let call = AwsFetch accessKey secretKey sessionToken url
                        (newParams(''inputs'' \<mapsto> JStr prompt))
           in ([call], and_then (aws_fetch w call) (\<lambda>r. Inr (response_of_http r))))
      | OpenAICompatible url apiKey \<Rightarrow>
          (let modelId = (case model_id defaultModel of
                            Some i \<Rightarrow> i
                          | None \<Rightarrow> model_name defaultModel);
               call = OpenAICompletionsCreate
                        (case apiKey of Some key \<Rightarrow> key | None \<Rightarrow> ''sk-'')
                        url modelId prompt
                        (newParams ''max_new_tokens'') (newParams ''stop'')
                        (newParams ''temperature'')
           in ([call],
               and_then (openai_completions_create w call) (\<lambda>completion.
                 Inr \<lparr>status = 200, body_stream = Some (completion_stream completion)\<rparr>)))
      | TGI url authorization \<Rightarrow>
          (let call = Fetch url authorization (newParams(''inputs'' \<mapsto> JStr prompt))
           in ([call], and_then (fetch w call) (\<lambda>r. Inr (response_of_http r)))))"

text \<open>
  \<^verbatim>\<open>generateFromDefaultEndpoint(prompt, parameters)\<close>, with what it takes from its
  imports as further parameters: the outside world, \<^verbatim>\<open>defaultModel\<close>, the endpoint
  selected and \<^verbatim>\<open>PUBLIC_SEP_TOKEN\<close>. It returns the calls made and the cleaned text, or
  the exception thrown.
\<close>

definition generateFromDefaultEndpoint ::
  "world \<Rightarrow> backend_model \<Rightarrow> Endpoint \<Rightarrow> string \<Rightarrow> string \<Rightarrow> obj option
    \<Rightarrow> upstream_call list \<times> (js_error + string)" where
  "generateFromDefaultEndpoint w defaultModel randomEndpoint sep prompt parameters =
     (let newParams = newParameters (model_parameters defaultModel) parameters in
      case dispatch w defaultModel randomEndpoint prompt newParams of
        (calls, dispatched) \<Rightarrow>
          (calls,
           and_then dispatched (\<lambda>resp.
             if \<not> response_ok resp then
               and_then (response_text resp) (\<lambda>body_text. Inl (Error body_text))
             else
               (case body_stream resp of
                  None \<Rightarrow> Inl (Error ''Response body is empty'')
                | Some (cs, ending) \<Rightarrow>
                    and_then (read_all cs ending []) (\<lambda>result.
                    and_then (case JSON_parse w result of
                                None \<Rightarrow> Inl SyntaxError
                              | Some results \<Rightarrow> Inr results) (\<lambda>results.
                    and_then (index0 results) (\<lambda>first.
                    and_then (generated_text_of first) (\<lambda>g.
                    and_then (as_string g) (\<lambda>generated_text.
                      Inr (clean sep generated_text prompt (stop_sequences newParams)))))))))))"

subsection \<open>Examples of a model and of the outside world\<close>

definition example_model :: backend_model where
  "example_model =
     \<lparr>model_id = Some ''example/model'', model_name = ''example/model'',
      model_parameters =
        [''temperature'' \<mapsto> JNum (9 / 10), ''truncate'' \<mapsto> JNum 1000,
         ''max_new_tokens'' \<mapsto> JNum 1024, ''stop'' \<mapsto> JArr [JStr ''STOP''],
         ''return_full_text'' \<mapsto> JBool True]\<rparr>"

text \<open>
  A fragment of \<^verbatim>\<open>JSON.parse\<close>, on the two texts of the examples: the empty array, and
  an array of one object with a generated text.
\<close>

definition example_JSON_parse :: "string \<Rightarrow> jsval option" where
  \<open>example_JSON_parse s =
     (if s = ''[]'' then Some (JArr [])
      else if s = ''[{"generated_text":"Hello continuation STOP"}]''
        then Some (JArr [JObj [(''generated_text'', JStr ''Hello continuation STOP'')]])
      else None)\<close>

text \<open>A world in which every HTTP call is answered with the response \<open>r\<close>.\<close>

definition example_world :: "http_response \<Rightarrow> world" where
  "example_world r =
     \<lparr>aws_fetch = (\<lambda>_. Inr r),
      openai_completions_create = (\<lambda>_. Inr [[''Hello''], ['' there'']]),
      fetch = (\<lambda>_. Inr r),
      JSON_parse = example_JSON_parse\<rparr>"

chapter \<open>Verification\<close>

section \<open>Strings\<close>

lemma endsWith_Nil [simp]: "endsWith s []"
  by (simp add: endsWith_def)

lemma trimEnd_Nil [simp]: "trimEnd [] = []"
  by (simp add: trimEnd_def)

lemma trimEnd_idem [simp]: "trimEnd (trimEnd s) = trimEnd s"
proof -
  have "dropWhile isWhiteSpace (dropWhile isWhiteSpace (rev s)) = dropWhile isWhiteSpace (rev s)"
    by (rule dropWhile_idem)
  then show ?thesis by (simp add: trimEnd_def)
qed

section \<open>PostProcessor\<close>

lemmas js_string_defs = startsWith_def endsWith_def isWhiteSpace_def trimEnd_def slice_0_neg_def
  trimPrefix_def trimSuffix_def startoftext_def endoftext_def stop_step_def

lemma trimPrefix_Nil [simp]: "trimPrefix t [] = t"
  by (simp add: trimPrefix_def startsWith_def)

lemma trimSuffix_Nil [simp]: "trimSuffix t [] = t"
  by (simp add: trimSuffix_def)

subsection \<open>The output never ends in white space\<close>

lemma stop_step_trimmed: "trimEnd t = t \<Longrightarrow> trimEnd (stop_step t stop) = stop_step t stop"
  by (simp add: stop_step_def)

lemma foldl_stop_step_trimmed:
  "trimEnd t = t \<Longrightarrow> trimEnd (foldl stop_step t stops) = foldl stop_step t stops"
  by (induction stops arbitrary: t) (simp_all add: stop_step_trimmed)

lemma clean_trimmed: "trimEnd (clean sep raw prompt stops) = clean sep raw prompt stops"
  unfolding clean_def by (rule foldl_stop_step_trimmed) simp

lemma foldl_stop_step_no_match:
  "\<forall>stop\<in>set stops. \<not> endsWith t stop \<Longrightarrow> foldl stop_step t stops = t"
  by (induction stops) (simp_all add: stop_step_def)

subsection \<open>An empty stop sequence\<close>

lemma stop_step_empty: "stop_step t [] = []"
  by (simp add: stop_step_def slice_0_neg_def)

lemma stop_step_of_Nil: "stop_step [] stop = []"
  by (simp add: stop_step_def slice_0_neg_def)

lemma foldl_stop_step_Nil: "foldl stop_step [] stops = []"
  by (induction stops) (simp_all add: stop_step_of_Nil)

lemma foldl_stop_step_empty_stop: "[] \<in> set stops \<Longrightarrow> foldl stop_step t stops = []"
proof (induction stops arbitrary: t)
  case Nil
  then show ?case by simp
next
  case (Cons s stops)
  show ?case
  proof (cases "s = []")
    case True
    then show ?thesis by (simp add: stop_step_empty foldl_stop_step_Nil)
  next
    case False
    with Cons show ?thesis by simp
  qed
qed

text \<open>Whatever the raw text, an empty string among the stop sequences erases it.\<close>

lemma clean_empty_stop: "[] \<in> set stops \<Longrightarrow> clean sep raw prompt stops = []"
  unfolding clean_def by (rule foldl_stop_step_empty_stop) simp

subsection \<open>The code against the steps of the spec\<close>

lemma stop_step_spec: "stop \<noteq> [] \<Longrightarrow> stop_step t stop = spec_trim_stop t stop"
  by (simp add: stop_step_def spec_trim_stop_def slice_0_neg_def)

lemma foldl_stop_step_spec:
  "[] \<notin> set stops \<Longrightarrow> foldl stop_step t stops = foldl spec_trim_stop t stops"
  by (induction stops arbitrary: t) (auto simp: stop_step_spec)

text \<open>
  With no empty stop sequence, the code is the composition of the five steps of the spec,
  in the order of the spec.
\<close>

lemma clean_refines_spec:
  assumes "[] \<notin> set stops"
  shows "clean sep raw prompt stops = clean_spec sep raw prompt stops"
proof -
  have stops: "[] \<notin> set (stops @ [endoftext])"
    using assms by (simp add: endoftext_def)
  have bos: "trimPrefix raw startoftext = spec_strip_bos raw"
    by (simp add: trimPrefix_def spec_strip_bos_def)
  have prompt: "trimPrefix t prompt = spec_strip_prompt prompt t" for t
    by (simp add: trimPrefix_def spec_strip_prompt_def)
  have sep: "trimSuffix t sep = spec_strip_sep sep t" for t
    by (simp add: trimSuffix_def spec_strip_sep_def)
  show ?thesis
    unfolding clean_def clean_spec_def
    by (simp only: bos prompt sep foldl_stop_step_spec [OF stops])
qed

text \<open>
  The order is load-bearing: when the model echoes the prompt \<open>Q: hi\<close> and \<open>hi\<close> is a
  stop sequence, stripping the prompt first leaves nothing, while trimming the stop
  sequences first cuts into the prompt and leaves \<open>Q:\<close>.
\<close>

lemma clean_order_matters:
  "clean ''</s>'' ''Q: hi'' ''Q: hi'' [''hi''] = [] \<and>
   clean_stops_first ''</s>'' ''Q: hi'' ''Q: hi'' [''hi''] = ''Q:''"
  by (simp add: clean_def clean_stops_first_def js_string_defs)

text \<open>
  Claim C8 (the steps and their order). The spec's step 5 removes a matching stop sequence
  as a suffix; the loop of the code computes \<^verbatim>\<open>slice(0, -stop.length)\<close>, which for the
  empty stop sequence is \<^verbatim>\<open>slice(0, 0)\<close>. At the raw text \<open>Hi there\<close>, the prompt \<open>Q\<close>
  and the one stop sequence \<open>""\<close> the code returns the empty string, where the steps of
  the spec return \<open>Hi there\<close>.
\<close>

theorem clean_empty_stop_erases_text:
  "clean ''</s>'' ''Hi there'' ''Q'' [''''] = [] \<and>
   clean_spec ''</s>'' ''Hi there'' ''Q'' [''''] = ''Hi there''"
  by (simp add: clean_def clean_spec_def spec_strip_bos_def spec_strip_prompt_def
      spec_strip_sep_def spec_trim_stop_def js_string_defs)

text \<open>
  Claim C1, as stated: for the prompt \<open>Hello\<close>, the stop sequence \<open>STOP\<close> and the raw text
  \<open>Hello continuation STOP\<close> the result would be \<open>continuation\<close>. It is not: the space
  after the echoed prompt stays.
\<close>

theorem clean_hello_not_continuation:
  "clean ''</s>'' ''Hello continuation STOP'' ''Hello'' [''STOP''] \<noteq> ''continuation''"
  by (simp add: clean_def js_string_defs)

text \<open>
  Claim C1, amended: for the prompt \<open>Hello\<close>, the stop sequence \<open>STOP\<close> and the raw text
  \<open>Hello continuation STOP\<close>, the result is \<open>continuation\<close> with the leading space (only
  white space at the end is trimmed), for every separator token that is empty or not a
  suffix of the text.
\<close>

theorem clean_hello_keeps_leading_space:
  assumes "sep = [] \<or> \<not> endsWith '' continuation STOP'' sep"
  shows "clean sep ''Hello continuation STOP'' ''Hello'' [''STOP''] = '' continuation''"
proof -
  have 1: "trimPrefix (trimPrefix ''Hello continuation STOP'' startoftext) ''Hello''
      = '' continuation STOP''"
    by (simp add: js_string_defs)
  have 2: "trimSuffix '' continuation STOP'' sep = '' continuation STOP''"
    using assms by (auto simp: trimSuffix_def)
  have 3: "foldl stop_step (trimEnd '' continuation STOP'') ([''STOP''] @ [endoftext])
      = '' continuation''"
    by (simp add: js_string_defs)
  show ?thesis
    unfolding clean_def by (simp only: 1 2 3)
qed

theorem clean_hello_keeps_leading_space_witness:
  "clean ''</s>'' ''Hello continuation STOP'' ''Hello'' [''STOP''] = '' continuation''"
proof -
  have "\<not> endsWith '' continuation STOP'' ''</s>''"
    by (simp add: endsWith_def)
  then show ?thesis
    using clean_hello_keeps_leading_space [of "''</s>''"] by simp
qed

text \<open>
  Claim C2, as stated: \<open>clean\<close> would be idempotent. It is not: each marker, the prompt and
  each stop sequence is removed once, so a second application removes a second
  occurrence. The text \<open>a STOP STOP\<close> becomes \<open>a STOP\<close> and then \<open>a\<close>.
\<close>

theorem clean_not_idempotent:
  "clean ''</s>'' (clean ''</s>'' ''a STOP STOP'' ''Hello'' [''STOP'']) ''Hello'' [''STOP'']
     \<noteq> clean ''</s>'' ''a STOP STOP'' ''Hello'' [''STOP'']"
  by (simp add: clean_def js_string_defs)

text \<open>
  Claim C2, amended: applying \<open>clean\<close> to its own output changes nothing whenever that
  output no longer begins with the beginning-of-text marker or the (non-empty) prompt and
  no longer ends with the (non-empty) separator token, a stop sequence or the end-of-text
  marker. The trailing white space never needs a second pass.
\<close>

theorem clean_idempotent_on_clean_output:
  assumes "\<not> startsWith (clean sep raw prompt stops) startoftext"
    and "prompt = [] \<or> \<not> startsWith (clean sep raw prompt stops) prompt"
    and "sep = [] \<or> \<not> endsWith (clean sep raw prompt stops) sep"
    and "\<forall>stop\<in>set (stops @ [endoftext]). \<not> endsWith (clean sep raw prompt stops) stop"
  shows "clean sep (clean sep raw prompt stops) prompt stops = clean sep raw prompt stops"
proof -
  let ?y = "clean sep raw prompt stops"
  have 1: "trimPrefix ?y startoftext = ?y"
    using assms(1) by (simp add: trimPrefix_def)
  have 2: "trimPrefix ?y prompt = ?y"
    using assms(2) by (auto simp: trimPrefix_def)
  have 3: "trimSuffix ?y sep = ?y"
    using assms(3) by (auto simp: trimSuffix_def)
  have 4: "trimEnd ?y = ?y"
    by (rule clean_trimmed)
  have "clean sep ?y prompt stops = foldl stop_step ?y (stops @ [endoftext])"
    unfolding clean_def [of sep ?y] by (simp only: 1 2 3 4)
  also have "\<dots> = ?y"
    using assms(4) by (rule foldl_stop_step_no_match)
  finally show ?thesis .
qed

theorem clean_idempotent_on_clean_output_witness:
  "clean ''</s>'' (clean ''</s>'' ''Hello continuation STOP'' ''Hello'' [''STOP'']) ''Hello'' [''STOP'']
     = clean ''</s>'' ''Hello continuation STOP'' ''Hello'' [''STOP'']"
proof -
  have y: "clean ''</s>'' ''Hello continuation STOP'' ''Hello'' [''STOP''] = '' continuation''"
    by (simp add: clean_def js_string_defs)
  have "\<not> startsWith '' continuation'' startoftext"
    and "\<not> startsWith '' continuation'' ''Hello''"
    and "\<not> endsWith '' continuation'' ''</s>''"
    and "\<forall>stop\<in>set ([''STOP''] @ [endoftext]). \<not> endsWith '' continuation'' stop"
    by (simp_all add: js_string_defs)
  then show ?thesis
    using clean_idempotent_on_clean_output [of "''</s>''" "''Hello continuation STOP''" "''Hello''" "[''STOP'']"]
    unfolding y by blast
qed

section \<open>ConfigValidator\<close>

lemma get_prop_absent: "\<not> has_key kv k \<Longrightarrow> get_prop kv k = JUndefined"
  by (simp add: has_key_def get_prop_def map_of_eq_None_iff [THEN iffD2])

lemma parse_shape_skip_key:
  assumes "\<not> has_key kv k"
    and "\<forall>parse. (k, parse) \<in> set shape \<longrightarrow> (\<forall>p. parse p JUndefined = Inr JUndefined)"
  shows "parse_shape shape p kv = parse_shape (filter (\<lambda>(k', _). k' \<noteq> k) shape) p kv"
  using assms(2)
proof (induction shape)
  case Nil
  then show ?case by simp
next
  case (Cons e shape)
  obtain k' parse where e: "e = (k', parse)" by (cases e)
  have IH: "parse_shape shape p kv = parse_shape (filter (\<lambda>(k', _). k' \<noteq> k) shape) p kv"
    using Cons by simp
  show ?case
  proof (cases "k' = k")
    case True
    then have "parse (p @ [Key k]) JUndefined = Inr JUndefined"
      using Cons.prems e by simp
    then show ?thesis
      using True e IH assms(1) by (simp add: get_prop_absent split: prod.splits)
  next
    case False
    then show ?thesis
      using e IH by simp
  qed
qed

lemma parse_shape_keys:
  "parse_shape shape p kv = (failed, out) \<Longrightarrow> set (map fst out) \<subseteq> set (map fst shape)"
proof (induction shape arbitrary: failed out)
  case Nil
  then show ?case by simp
next
  case (Cons e shape)
  obtain k parse where e: "e = (k, parse)" by (cases e)
  obtain failed' out' where r: "parse_shape shape p kv = (failed', out')"
    by (cases "parse_shape shape p kv")
  have sub: "set (map fst out') \<subseteq> set (map fst shape)"
    using Cons.IH r by simp
  have "out = out' \<or> (\<exists>y. out = (k, y) # out')"
    using Cons.prems e r by (auto split: sum.splits if_splits)
  then show ?case
  proof (elim disjE exE)
    assume "out = out'"
    then show ?thesis
      using sub by (simp add: subset_insertI2)
  next
    fix y
    assume "out = (k, y) # out'"
    then show ?thesis
      using sub e by (simp add: subset_insertI2)
  qed
qed

lemma zparse_without_key:
  assumes "\<not> has_key kv k"
    and "\<forall>s. (k, s) \<in> set shape \<longrightarrow> (\<exists>s'. s = ZOptional s')"
  shows "zparse isURL (ZObject shape False) p (JObj kv)
       = zparse isURL (without_key k (ZObject shape False)) p (JObj kv)"
proof -
  let ?ps = "map (map_prod id (zparse isURL)) shape"
  have "\<forall>parse. (k, parse) \<in> set ?ps \<longrightarrow> (\<forall>p. parse p JUndefined = Inr JUndefined)"
    using assms(2) by auto
  then have "parse_shape ?ps p kv = parse_shape (filter (\<lambda>(k', _). k' \<noteq> k) ?ps) p kv"
    by (rule parse_shape_skip_key [OF assms(1)])
  moreover have "filter (\<lambda>(k', _). k' \<noteq> k) ?ps
      = map (map_prod id (zparse isURL)) (filter (\<lambda>(k', _). k' \<noteq> k) shape)"
    by (induction shape) auto
  ultimately show ?thesis by simp
qed

lemma zparse_object_keys:
  assumes "zparse isURL (ZObject shape False) p (JObj kv) = Inr out"
  shows "\<exists>kv'. out = JObj kv' \<and> set (map fst kv') \<subseteq> set (map fst shape)"
proof -
  obtain failed out' where
    r: "parse_shape (map (map_prod id (zparse isURL)) shape) p kv = (failed, out')"
    by (cases "parse_shape (map (map_prod id (zparse isURL)) shape) p kv")
  have "set (map fst out') \<subseteq> set (map fst (map (map_prod id (zparse isURL)) shape))"
    using r by (rule parse_shape_keys)
  then have "set (map fst out') \<subseteq> set (map fst shape)"
    by (simp add: comp_def)
  then show ?thesis
    using assms r by (cases failed) auto
qed

lemma modelConfig_endpoints_optional:
  "(''endpoints'', s) \<in> set (modelConfig_shape isURL hf key) \<Longrightarrow> \<exists>s'. s = ZOptional s'"
  by (simp add: modelConfig_shape_def)

text \<open>
  A union that no option accepts reports the issues of the option that failed only a
  check: an endpoint with weight \<open>0\<close> is a TGI endpoint but for its weight, and the parse
  fails with \<open>too_small\<close> at \<open>endpoints.0.weight\<close>.
\<close>

lemma endpoint_weight_zero_is_too_small:
  "zparse (\<lambda>s. take 8 s = ''https://'') (modelConfig (\<lambda>s. take 8 s = ''https://'') ''hf'' ''key'') []
     (JObj [(''name'', JStr ''m''),
            (''endpoints'', JArr [JObj [(''url'', JStr ''https://x''), (''weight'', JNum 0)]])])
   = Inl (Dirty [Issue [Key ''endpoints'', Index 0, Key ''weight''] ''too_small''])"
  by (simp add: modelConfig_def modelConfig_shape_def combinedEndpoint_def endpoint_def
      openAICompatibleEndpoint_def sagemakerEndpoint_def tgiEndpoint_def commonEndpoint_def
      get_prop_def has_key_def)

text \<open>
  Claim C3, as stated: a model object with no \<open>endpoints\<close> field would fail validation.
  It does not: the schema declares \<open>endpoints\<close> with \<^verbatim>\<open>.optional()\<close>, and the object
  \<^verbatim>\<open>{"name": "m"}\<close> parses to a model configuration with no endpoint at all.
\<close>

theorem modelConfig_accepts_missing_endpoints:
  "zparse (\<lambda>_. False) (modelConfig (\<lambda>_. False) ''hf'' ''key'') [] (JObj [(''name'', JStr ''m'')]) =
  Inr (JObj
       [(''name'', JStr ''m''), (''userMessageToken'', JStr []),
        (''userMessageEndToken'', JStr []),
        (''assistantMessageToken'', JStr []),
        (''assistantMessageEndToken'', JStr []),
        (''messageEndToken'', JStr []), (''preprompt'', JStr []),
        (''chatPromptTemplate'', JStr default_chatPromptTemplate)])"
  by (simp add: modelConfig_def modelConfig_shape_def get_prop_def has_key_def)

text \<open>
  So does the whole configuration \<^verbatim>\<open>[{"name": "m"}]\<close>: the load of the models succeeds
  with a model that has no endpoint.
\<close>

lemma modelsRaw_accepts_missing_endpoints:
  "modelsRaw (\<lambda>_. False) ''hf'' ''key'' (JArr [JObj [(''name'', JStr ''m'')]]) =
   Inr (JArr [JObj
       [(''name'', JStr ''m''), (''userMessageToken'', JStr []),
        (''userMessageEndToken'', JStr []),
        (''assistantMessageToken'', JStr []),
        (''assistantMessageEndToken'', JStr []),
        (''messageEndToken'', JStr []), (''preprompt'', JStr []),
        (''chatPromptTemplate'', JStr default_chatPromptTemplate)]])"
  by (simp add: modelsRaw_def modelConfig_def modelConfig_shape_def get_prop_def has_key_def)

text \<open>
  Claim C3, amended: for a model object with no \<open>endpoints\<close> field, the missing field
  raises no validation issue and nothing is put in its place. The parse is the parse by the
  schema without the \<open>endpoints\<close> key (it fails only for another field), and when it
  succeeds the parsed configuration has no \<open>endpoints\<close> property.
\<close>

theorem modelConfig_without_endpoints:
  assumes "\<not> has_key raw_model ''endpoints''"
  shows "zparse isURL (modelConfig isURL hf key) [] (JObj raw_model)
           = zparse isURL (without_key ''endpoints'' (modelConfig isURL hf key)) [] (JObj raw_model)
         \<and> (\<forall>out. zparse isURL (modelConfig isURL hf key) [] (JObj raw_model) = Inr out
               \<longrightarrow> (\<exists>kv. out = JObj kv \<and> \<not> has_key kv ''endpoints''))"
proof
  show eq: "zparse isURL (modelConfig isURL hf key) [] (JObj raw_model)
      = zparse isURL (without_key ''endpoints'' (modelConfig isURL hf key)) [] (JObj raw_model)"
    unfolding modelConfig_def
    by (rule zparse_without_key [OF assms]) (blast dest: modelConfig_endpoints_optional)
  show "\<forall>out. zparse isURL (modelConfig isURL hf key) [] (JObj raw_model) = Inr out
      \<longrightarrow> (\<exists>kv. out = JObj kv \<and> \<not> has_key kv ''endpoints'')"
  proof (intro allI impI)
    fix out
    assume "zparse isURL (modelConfig isURL hf key) [] (JObj raw_model) = Inr out"
    then have "zparse isURL (ZObject (filter (\<lambda>(k', _). k' \<noteq> ''endpoints'')
        (modelConfig_shape isURL hf key)) False) [] (JObj raw_model) = Inr out"
      using eq by (simp add: modelConfig_def)
    then obtain kv where "out = JObj kv"
      and "set (map fst kv) \<subseteq> set (map fst (filter (\<lambda>(k', _). k' \<noteq> ''endpoints'')
        (modelConfig_shape isURL hf key)))"
      using zparse_object_keys by blast
    then show "\<exists>kv. out = JObj kv \<and> \<not> has_key kv ''endpoints''"
      by (auto simp: has_key_def)
  qed
qed

theorem modelConfig_without_endpoints_witness:
  "\<not> has_key [(''name'', JStr ''m'')] ''endpoints''
   \<and> zparse (\<lambda>_. False) (modelConfig (\<lambda>_. False) ''hf'' ''key'') [] (JObj [(''name'', JStr ''m'')])
       = zparse (\<lambda>_. False) (without_key ''endpoints'' (modelConfig (\<lambda>_. False) ''hf'' ''key'')) []
           (JObj [(''name'', JStr ''m'')])"
proof -
  have h: "\<not> has_key [(''name'', JStr ''m'')] ''endpoints''"
    by (simp add: has_key_def)
  from modelConfig_without_endpoints [OF h] show ?thesis
    using h by blast
qed

section \<open>StreamAdapter\<close>

lemma read_round_ok:
  assumes "locked s" and "releases s = 0" and "gen s \<noteq> Completed"
  shows "adapter_ok (snd (read_round rd s))"
    and "0 < reads (snd (read_round rd s))"
    and "reads (snd (read_round rd s)) = Suc (reads s)"
  using assms
  by (auto simp: read_round_def adapter_ok_def releaseLock_def split: read_result.splits)

lemma gen_step_ok: "adapter_ok s \<Longrightarrow> adapter_ok (snd (gen_step rd req s))"
  by (cases "gen s"; cases req)
     (auto simp: gen_step_def read_round_def adapter_ok_def releaseLock_def
           split: read_result.splits)

lemma gen_step_completed: "gen s = Completed \<Longrightarrow> snd (gen_step rd req s) = s"
  by (cases req) (simp_all add: gen_step_def)

lemma run_requests_completed: "gen s = Completed \<Longrightarrow> run_requests rd reqs s = s"
  unfolding run_requests_def
  by (induction reqs) (simp_all add: gen_step_completed)

lemma run_requests_ok: "adapter_ok s \<Longrightarrow> adapter_ok (run_requests rd reqs s)"
  unfolding run_requests_def
  by (induction reqs arbitrary: s) (simp_all add: gen_step_ok)

lemma adapter_ok_releases: "adapter_ok s \<Longrightarrow> releases s \<le> 1"
  by (cases "gen s") (auto simp: adapter_ok_def)

text \<open>The three results of \<^verbatim>\<open>next()\<close> on a generator that has not completed.\<close>

lemma gen_step_Next_cases:
  assumes "adapter_ok s" and "gen s \<noteq> Completed"
  obtains
    (yields) v s1 where "rd (reads s) = Value v"
      and "gen_step rd Next s = (Yielded v, s1)"
      and "gen s1 = SuspendedYield" and "adapter_ok s1" and "reads s1 = Suc (reads s)"
  | (finishes) s1 where "rd (reads s) = Done"
      and "gen_step rd Next s = (Finished, s1)"
      and "gen s1 = Completed" and "adapter_ok s1" and "0 < reads s1"
  | (rejects) e s1 where "rd (reads s) = Rejects e"
      and "gen_step rd Next s = (Threw e, s1)"
      and "gen s1 = Completed" and "adapter_ok s1" and "0 < reads s1"
proof (cases "rd (reads s)")
  case (Value v)
  with assms show ?thesis
    by (intro yields [of v "snd (gen_step rd Next s)"]; cases "gen s")
       (auto simp: gen_step_def read_round_def adapter_ok_def releaseLock_def)
next
  case Done
  with assms show ?thesis
    by (intro finishes [of "snd (gen_step rd Next s)"]; cases "gen s")
       (auto simp: gen_step_def read_round_def adapter_ok_def releaseLock_def)
next
  case (Rejects e)
  with assms show ?thesis
    by (intro rejects [of e "snd (gen_step rd Next s)"]; cases "gen s")
       (auto simp: gen_step_def read_round_def adapter_ok_def releaseLock_def)
qed

lemma gen_step_Return_yield:
  assumes "adapter_ok s" and "gen s = SuspendedYield"
  shows "gen (snd (gen_step rd Return s)) = Completed
    \<and> adapter_ok (snd (gen_step rd Return s))
    \<and> 0 < reads (snd (gen_step rd Return s))"
  using assms by (auto simp: gen_step_def adapter_ok_def releaseLock_def)

lemma for_await_result:
  assumes "for_await fuel rd body i s = Some (r, s')"
    and "adapter_ok s" and "gen s \<noteq> Completed"
  shows "gen s' = Completed \<and> adapter_ok s' \<and> 0 < reads s'"
  using assms
proof (induction fuel arbitrary: i s)
  case 0
  then show ?case by simp
next
  case (Suc fuel)
  from Suc.prems(2,3) show ?case
  proof (cases rule: gen_step_Next_cases [where rd = rd])
    case (yields v s1)
    show ?thesis
    proof (cases "body i v")
      case Continue
      then have "for_await fuel rd body (Suc i) s1 = Some (r, s')"
        using Suc.prems(1) yields(2) by simp
      then show ?thesis
        using Suc.IH yields(3,4) by simp
    next
      case Break
      then have "s' = snd (gen_step rd Return s1)"
        using Suc.prems(1) yields(2) by simp
      then show ?thesis
        using gen_step_Return_yield [OF yields(4,3), where rd = rd] by simp
    next
      case (Raise e)
      then have "s' = snd (gen_step rd Return s1)"
        using Suc.prems(1) yields(2) by simp
      then show ?thesis
        using gen_step_Return_yield [OF yields(4,3), where rd = rd] by simp
    qed
  next
    case (finishes s1)
    then have "s' = s1"
      using Suc.prems(1) by simp
    with finishes show ?thesis by simp
  next
    case (rejects e s1)
    then have "s' = s1"
      using Suc.prems(1) by simp
    with rejects show ?thesis by simp
  qed
qed

lemma for_await_terminates:
  assumes "exit_at rd body n" and "reads s = i" and "i \<le> n" and "n - i < fuel"
    and "adapter_ok s" and "gen s \<noteq> Completed"
  shows "for_await fuel rd body i s \<noteq> None"
  using assms(2-)
proof (induction fuel arbitrary: i s)
  case 0
  then show ?case by simp
next
  case (Suc fuel)
  from Suc.prems(4,5) show ?case
  proof (cases rule: gen_step_Next_cases [where rd = rd])
    case (yields v s1)
    show ?thesis
    proof (cases "body i v")
      case Continue
      have "i \<noteq> n"
        using Continue yields(1) assms(1) Suc.prems(1) by (auto simp: exit_at_def)
      then have "Suc i \<le> n" and "n - Suc i < fuel"
        using Suc.prems(2,3) by simp_all
      then have "for_await fuel rd body (Suc i) s1 \<noteq> None"
        using Suc.IH [of s1 "Suc i"] yields(3,4,5) Suc.prems(1) by simp
      then show ?thesis
        using Continue yields(2) by simp
    next
      case Break
      then show ?thesis
        using yields(2) by simp
    next
      case (Raise e)
      then show ?thesis
        using yields(2) by simp
    qed
  next
    case (finishes s1)
    then show ?thesis by simp
  next
    case (rejects e s1)
    then show ?thesis by simp
  qed
qed

lemma fresh_ok: "adapter_ok fresh" "gen fresh \<noteq> Completed" "reads fresh = 0"
  by (simp_all add: fresh_def adapter_ok_def)

lemma any_requests_release_at_most_once:
  "releases (run_requests rd reqs fresh)
     = (if gen (run_requests rd reqs fresh) = Completed \<and> 0 < reads (run_requests rd reqs fresh)
        then 1 else 0)"
proof -
  have "adapter_ok (run_requests rd reqs fresh)"
    by (rule run_requests_ok) (rule fresh_ok)
  then show ?thesis
    by (cases "gen (run_requests rd reqs fresh)") (auto simp: adapter_ok_def)
qed

text \<open>
  Claim C4: consumed by \<^verbatim>\<open>for await\<close>, the adapter releases the reader exactly once on
  every exit path. Whenever the loop ends (the reader reports done, a read rejects, or the
  body breaks or throws after any number of values), \<^verbatim>\<open>releaseLock\<close> has been called
  once, the stream is unlocked and the generator has completed; no later request to the
  generator releases again. The loop does end, within \<open>n + 1\<close> rounds, when round \<open>n\<close> is
  an exit. Under any other consumer, whatever requests it makes, the reader is released
  once if the generator has completed after its body ran, and not at all otherwise.
\<close>

theorem streamToAsyncIterable_releases_once:
  "(\<forall>r s'. for_await fuel rd body 0 fresh = Some (r, s') \<longrightarrow>
      releases s' = 1 \<and> \<not> locked s' \<and> gen s' = Completed
      \<and> (\<forall>reqs. releases (run_requests rd reqs s') = 1))
   \<and> (\<forall>n. exit_at rd body n \<and> n < fuel \<longrightarrow> for_await fuel rd body 0 fresh \<noteq> None)
   \<and> (\<forall>reqs. releases (run_requests rd reqs fresh)
         = (if gen (run_requests rd reqs fresh) = Completed
               \<and> 0 < reads (run_requests rd reqs fresh)
            then 1 else 0))"
proof (intro conjI allI impI)
  fix r s'
  assume run: "for_await fuel rd body 0 fresh = Some (r, s')"
  have s': "gen s' = Completed" "adapter_ok s'" "0 < reads s'"
    using for_await_result [OF run fresh_ok(1,2)] by simp_all
  then show "releases s' = 1" and "\<not> locked s'" and "gen s' = Completed"
    by (simp_all add: adapter_ok_def)
  fix reqs
  show "releases (run_requests rd reqs s') = 1"
    using s' by (simp add: run_requests_completed adapter_ok_def)
next
  fix n
  assume "exit_at rd body n \<and> n < fuel"
  then show "for_await fuel rd body 0 fresh \<noteq> None"
    using for_await_terminates [of rd body n fresh 0 fuel] fresh_ok by simp
next
  fix reqs
  show "releases (run_requests rd reqs fresh)
      = (if gen (run_requests rd reqs fresh) = Completed
            \<and> 0 < reads (run_requests rd reqs fresh)
         then 1 else 0)"
    by (rule any_requests_release_at_most_once)
qed

theorem streamToAsyncIterable_releases_once_witness:
  "exit_at (\<lambda>n. if n < 3 then Value n else Done) (\<lambda>i v. if i = 0 then Break else Continue) 0
   \<and> for_await 1 (\<lambda>n. if n < 3 then Value n else Done)
         (\<lambda>i v. if i = 0 then Break else Continue) 0 fresh \<noteq> None
   \<and> releases (snd (the (for_await 1 (\<lambda>n. if n < 3 then Value n else Done)
         (\<lambda>i v. if i = 0 then Break else Continue) 0 fresh))) = 1"
proof -
  let ?rd = "\<lambda>n::nat. if n < 3 then Value n else Done"
  let ?body = "\<lambda>(i::nat) (v::nat). if i = 0 then Break else Continue"
  note once = streamToAsyncIterable_releases_once [of 1 ?rd ?body]
  have e: "exit_at ?rd ?body 0"
    by (simp add: exit_at_def)
  with once have "for_await 1 ?rd ?body 0 fresh \<noteq> None"
    by simp
  then obtain r s' where run: "for_await 1 ?rd ?body 0 fresh = Some (r, s')"
    by auto
  with once have "releases s' = 1"
    by blast
  with e run show ?thesis
    by simp
qed

section \<open>The pump of the OpenAI-compatible path\<close>












lemma foldl_openai_run_step:
  "foldl openai_run_step s evs = foldl pump_step s (upstream_events evs)"
  by (induction evs arbitrary: s rule: upstream_events.induct) simp_all

lemma openai_run_upstream: "openai_run evs = pump_run (upstream_events evs)"
  by (simp add: openai_run_def pump_run_def foldl_openai_run_step)



text \<open>
  The stream the function reads is the one such a run leaves: the pump that
  \<^const>\<open>completion_stream\<close> runs is the run in which upstream delivers the chunks of the
  completion and then its end.
\<close>

lemma completion_stream_run:
  "pump_run (map Chunk completion @ [End_of_completion])
     = openai_run (map (\<lambda>choices. Upstream (Chunk_arrives choices)) completion
         @ [Upstream Completion_ends])"
proof -
  have "upstream_events (map (\<lambda>choices. Upstream (Chunk_arrives choices)) completion @ evs)
      = map Chunk completion @ upstream_events evs" for evs
    by (induction completion) simp_all
  then show ?thesis
    by (simp add: openai_run_upstream)
qed




section \<open>GenerationClient\<close>

lemma read_all_bytes: "read_all (map Uint8Array cs) None acc = Inr (acc @ concat cs)"
  by (induction cs arbitrary: acc) simp_all

lemma response_text_of_http:
  "response_text (response_of_http r)
     = Inr (case http_chunks r of None \<Rightarrow> [] | Some cs \<Rightarrow> concat cs)"
  by (cases "http_chunks r") (simp_all add: response_text_def response_of_http_def read_all_bytes)

lemma dispatch_one_call: "length (fst (dispatch w m ep p np)) = 1"
  by (cases ep) (simp_all add: dispatch_def Let_def)

text \<open>A response that is not ok comes from an HTTP call, and its text can be read.\<close>

lemma dispatch_not_ok:
  assumes "dispatch w m ep p np = (calls, Inr resp)" and "\<not> response_ok resp"
  shows "\<exists>r. resp = response_of_http r"
proof (cases ep)
  case (SageMaker url accessKey secretKey sessionToken)
  then show ?thesis
    using assms(1) by (auto simp: dispatch_def Let_def and_then_def split: sum.splits)
next
  case (OpenAICompatible url apiKey)
  then have "status resp = 200"
    using assms(1) by (auto simp: dispatch_def Let_def and_then_def split: sum.splits)
  then show ?thesis
    using assms(2) by (simp add: response_ok_def)
next
  case (TGI url authorization)
  then show ?thesis
    using assms(1) by (auto simp: dispatch_def Let_def and_then_def split: sum.splits)
qed

lemma generate_calls:
  "fst (generateFromDefaultEndpoint w m ep sep p ps)
     = fst (dispatch w m ep p (newParameters (model_parameters m) ps))"
  by (simp add: generateFromDefaultEndpoint_def Let_def split: prod.splits)

text \<open>
  Claim C9: the effective parameters are the defaults of the model overridden by the
  parameters of the request, with \<open>return_full_text\<close> set to false whatever either says:
  key by key, the request's value if it has the key, else the model's. These, with the
  prompt as \<open>inputs\<close>, are the body of the one call to a TGI or SageMaker endpoint, and
  their \<open>max_new_tokens\<close>, \<open>stop\<close> and \<open>temperature\<close> go to an OpenAI-compatible one.
\<close>

theorem effective_parameters:
  "newParameters defaults parameters k =
     (if k = ''return_full_text'' then Some (JBool False)
      else case parameters of
             None \<Rightarrow> defaults k
           | Some ps \<Rightarrow> (case ps k of Some v \<Rightarrow> Some v | None \<Rightarrow> defaults k))
   \<and> fst (generateFromDefaultEndpoint w m (TGI url authorization) sep p parameters)
       = [Fetch url authorization
            ((newParameters (model_parameters m) parameters)(''inputs'' \<mapsto> JStr p))]
   \<and> fst (generateFromDefaultEndpoint w m (SageMaker url accessKey secretKey sessionToken) sep p
            parameters)
       = [AwsFetch accessKey secretKey sessionToken url
            ((newParameters (model_parameters m) parameters)(''inputs'' \<mapsto> JStr p))]
   \<and> fst (generateFromDefaultEndpoint w m (OpenAICompatible base apiKey) sep p parameters)
       = [OpenAICompletionsCreate (case apiKey of Some key \<Rightarrow> key | None \<Rightarrow> ''sk-'') base
            (case model_id m of Some i \<Rightarrow> i | None \<Rightarrow> model_name m) p
            (newParameters (model_parameters m) parameters ''max_new_tokens'')
            (newParameters (model_parameters m) parameters ''stop'')
            (newParameters (model_parameters m) parameters ''temperature'')]"
proof (intro conjI)
  show "fst (generateFromDefaultEndpoint w m (OpenAICompatible base apiKey) sep p parameters)
       = [OpenAICompletionsCreate (case apiKey of Some key \<Rightarrow> key | None \<Rightarrow> ''sk-'') base
            (case model_id m of Some i \<Rightarrow> i | None \<Rightarrow> model_name m) p
            (newParameters (model_parameters m) parameters ''max_new_tokens'')
            (newParameters (model_parameters m) parameters ''stop'')
            (newParameters (model_parameters m) parameters ''temperature'')]"
    by (simp add: generate_calls dispatch_def Let_def)
  show "newParameters defaults parameters k =
     (if k = ''return_full_text'' then Some (JBool False)
      else case parameters of
             None \<Rightarrow> defaults k
           | Some ps \<Rightarrow> (case ps k of Some v \<Rightarrow> Some v | None \<Rightarrow> defaults k))"
    by (simp add: newParameters_def map_add_def split: option.splits)
  show "fst (generateFromDefaultEndpoint w m (TGI url authorization) sep p parameters)
       = [Fetch url authorization
            ((newParameters (model_parameters m) parameters)(''inputs'' \<mapsto> JStr p))]"
    by (simp add: generate_calls dispatch_def Let_def)
  show "fst (generateFromDefaultEndpoint w m (SageMaker url accessKey secretKey sessionToken) sep p
            parameters)
       = [AwsFetch accessKey secretKey sessionToken url
            ((newParameters (model_parameters m) parameters)(''inputs'' \<mapsto> JStr p))]"
    by (simp add: generate_calls dispatch_def Let_def)
qed

theorem effective_parameters_witness:
  "newParameters (model_parameters example_model)
     (Some [''temperature'' \<mapsto> JNum (1 / 10), ''return_full_text'' \<mapsto> JBool True])
     ''temperature'' = Some (JNum (1 / 10))
   \<and> newParameters (model_parameters example_model)
     (Some [''temperature'' \<mapsto> JNum (1 / 10), ''return_full_text'' \<mapsto> JBool True])
     ''truncate'' = Some (JNum 1000)
   \<and> newParameters (model_parameters example_model)
     (Some [''temperature'' \<mapsto> JNum (1 / 10), ''return_full_text'' \<mapsto> JBool True])
     ''return_full_text'' = Some (JBool False)"
proof -
  let ?ps = "[''temperature'' \<mapsto> JNum (1 / 10), ''return_full_text'' \<mapsto> JBool True]"
  note merged = effective_parameters [of "model_parameters example_model" "Some ?ps",
      THEN conjunct1]
  show ?thesis
    using merged [of "''temperature''"] merged [of "''truncate''"]
      merged [of "''return_full_text''"]
    by (simp add: example_model_def)
qed

text \<open>
  Claim C6: when the response of the backend is not ok (its status is outside 200 to 299),
  the function throws an error whose message is the text of the response body, having made
  exactly one upstream call: there is no retry.
\<close>

theorem non_2xx_fails_with_body_text:
  assumes "dispatch w defaultModel ep prompt
             (newParameters (model_parameters defaultModel) parameters) = (calls, Inr resp)"
    and "\<not> response_ok resp"
  shows "\<exists>body_text. response_text resp = Inr body_text
           \<and> generateFromDefaultEndpoint w defaultModel ep sep prompt parameters
               = (calls, Inl (Error body_text))
           \<and> length calls = 1"
proof -
  obtain r where "resp = response_of_http r"
    using dispatch_not_ok [OF assms] by blast
  then obtain body_text where t: "response_text resp = Inr body_text"
    by (simp add: response_text_of_http)
  have "length calls = 1"
    using dispatch_one_call [of w defaultModel ep prompt
        "newParameters (model_parameters defaultModel) parameters"] assms(1) by simp
  moreover have "generateFromDefaultEndpoint w defaultModel ep sep prompt parameters
      = (calls, Inl (Error body_text))"
    using assms t by (simp add: generateFromDefaultEndpoint_def and_then_def)
  ultimately show ?thesis
    using t by blast
qed

theorem non_2xx_fails_with_body_text_witness:
  "generateFromDefaultEndpoint
     (example_world \<lparr>http_status = 500, http_chunks = Some [''Model '', ''overloaded'']\<rparr>)
     example_model (TGI ''https://tgi.example'' ''Bearer token'') ''</s>'' ''Hello'' None
   = ([Fetch ''https://tgi.example'' ''Bearer token''
         ((newParameters (model_parameters example_model) None)(''inputs'' \<mapsto> JStr ''Hello''))],
      Inl (Error ''Model overloaded''))"
proof -
  let ?r = "\<lparr>http_status = 500, http_chunks = Some [''Model '', ''overloaded'']\<rparr>"
  let ?call = "Fetch ''https://tgi.example'' ''Bearer token''
     ((newParameters (model_parameters example_model) None)(''inputs'' \<mapsto> JStr ''Hello''))"
  have d: "dispatch (example_world ?r) example_model (TGI ''https://tgi.example'' ''Bearer token'')
      ''Hello'' (newParameters (model_parameters example_model) None)
      = ([?call], Inr (response_of_http ?r))"
    by (simp add: dispatch_def Let_def and_then_def example_world_def)
  have n: "\<not> response_ok (response_of_http ?r)"
    by (simp add: response_ok_def response_of_http_def)
  have t: "response_text (response_of_http ?r) = Inr ''Model overloaded''"
    by (simp add: response_text_of_http)
  from non_2xx_fails_with_body_text [OF d n, of "''</s>''"] t show ?thesis
    by auto
qed

text \<open>
  Claim C7: when the response is ok but has no body, the function throws the error
  \<open>Response body is empty\<close> and returns no text.
\<close>

theorem empty_body_fails:
  assumes "dispatch w defaultModel ep prompt
             (newParameters (model_parameters defaultModel) parameters) = (calls, Inr resp)"
    and "response_ok resp" and "body_stream resp = None"
  shows "generateFromDefaultEndpoint w defaultModel ep sep prompt parameters
           = (calls, Inl (Error ''Response body is empty''))"
  using assms by (simp add: generateFromDefaultEndpoint_def and_then_def)

theorem empty_body_fails_witness:
  "generateFromDefaultEndpoint
     (example_world \<lparr>http_status = 204, http_chunks = None\<rparr>)
     example_model (TGI ''https://tgi.example'' ''Bearer token'') ''</s>'' ''Hello'' None
   = ([Fetch ''https://tgi.example'' ''Bearer token''
         ((newParameters (model_parameters example_model) None)(''inputs'' \<mapsto> JStr ''Hello''))],
      Inl (Error ''Response body is empty''))"
proof -
  let ?r = "\<lparr>http_status = 204, http_chunks = None\<rparr>"
  let ?call = "Fetch ''https://tgi.example'' ''Bearer token''
     ((newParameters (model_parameters example_model) None)(''inputs'' \<mapsto> JStr ''Hello''))"
  have d: "dispatch (example_world ?r) example_model (TGI ''https://tgi.example'' ''Bearer token'')
      ''Hello'' (newParameters (model_parameters example_model) None)
      = ([?call], Inr (response_of_http ?r))"
    by (simp add: dispatch_def Let_def and_then_def example_world_def)
  have "response_ok (response_of_http ?r)" and "body_stream (response_of_http ?r) = None"
    by (simp_all add: response_ok_def response_of_http_def)
  then show ?thesis
    by (rule empty_body_fails [OF d])
qed

lemma array_success_needs_first:
  assumes "dispatch w defaultModel ep prompt
             (newParameters (model_parameters defaultModel) parameters) = (calls, Inr resp)"
    and "response_ok resp" and "body_stream resp = Some (cs, ending)"
    and "read_all cs ending [] = Inr result"
    and "JSON_parse w result = Some (JArr xs)"
    and "generateFromDefaultEndpoint w defaultModel ep sep prompt parameters = (calls, Inr cleaned)"
  shows "\<exists>kv rest g. xs = JObj kv # rest \<and> get_prop kv ''generated_text'' = JStr g"
proof -
  have run: "and_then (index0 (JArr xs)) (\<lambda>first.
      and_then (generated_text_of first) (\<lambda>g.
      and_then (as_string g) (\<lambda>generated_text.
        Inr (clean sep generated_text prompt
          (stop_sequences (newParameters (model_parameters defaultModel) parameters))))))
      = Inr cleaned"
    using assms by (simp add: generateFromDefaultEndpoint_def and_then_def)
  then obtain x rest where xs: "xs = x # rest"
    by (cases xs) (simp_all add: and_then_def index0_def generated_text_of_def)
  then obtain kv where x: "x = JObj kv"
    using run by (cases x) (simp_all add: and_then_def index0_def generated_text_of_def as_string_def)
  then obtain g where "get_prop kv ''generated_text'' = JStr g"
    using run xs
    by (cases "get_prop kv ''generated_text''")
       (simp_all add: and_then_def index0_def generated_text_of_def as_string_def)
  then show ?thesis
    using xs x by blast
qed

text \<open>
  Claim C10: on the success path the function reads \<^verbatim>\<open>results[0].generated_text\<close> with no
  guard. When the body parses to an array whose first element is an object with a string
  \<open>generated_text\<close>, the function returns that text, cleaned. When the body parses to the
  empty array (the body \<open>[]\<close>, which is not an empty body), the function throws a
  \<^verbatim>\<open>TypeError\<close>: neither the empty-response error nor a text. And when the body parses
  to an array, the function returns a text only if the array has such a first element.
\<close>

theorem first_element_read_unguarded:
  assumes "dispatch w defaultModel ep prompt
             (newParameters (model_parameters defaultModel) parameters) = (calls, Inr resp)"
    and "response_ok resp" and "body_stream resp = Some (cs, ending)"
    and "read_all cs ending [] = Inr result"
  shows "(\<forall>kv rest g.
            JSON_parse w result = Some (JArr (JObj kv # rest))
            \<and> get_prop kv ''generated_text'' = JStr g
          \<longrightarrow> generateFromDefaultEndpoint w defaultModel ep sep prompt parameters
               = (calls, Inr (clean sep g prompt
                   (stop_sequences (newParameters (model_parameters defaultModel) parameters)))))
         \<and> (JSON_parse w result = Some (JArr [])
          \<longrightarrow> generateFromDefaultEndpoint w defaultModel ep sep prompt parameters
               = (calls, Inl TypeError))
         \<and> (\<forall>xs cleaned.
            JSON_parse w result = Some (JArr xs)
            \<and> generateFromDefaultEndpoint w defaultModel ep sep prompt parameters
               = (calls, Inr cleaned)
          \<longrightarrow> (\<exists>kv rest g. xs = JObj kv # rest \<and> get_prop kv ''generated_text'' = JStr g))"
proof (intro conjI allI impI)
  fix kv rest g
  assume "JSON_parse w result = Some (JArr (JObj kv # rest))
      \<and> get_prop kv ''generated_text'' = JStr g"
  then show "generateFromDefaultEndpoint w defaultModel ep sep prompt parameters
      = (calls, Inr (clean sep g prompt
          (stop_sequences (newParameters (model_parameters defaultModel) parameters))))"
    using assms
    by (simp add: generateFromDefaultEndpoint_def and_then_def index0_def generated_text_of_def
        as_string_def)
next
  assume "JSON_parse w result = Some (JArr [])"
  then show "generateFromDefaultEndpoint w defaultModel ep sep prompt parameters
      = (calls, Inl TypeError)"
    using assms
    by (simp add: generateFromDefaultEndpoint_def and_then_def index0_def generated_text_of_def)
next
  fix xs cleaned
  assume "JSON_parse w result = Some (JArr xs)
      \<and> generateFromDefaultEndpoint w defaultModel ep sep prompt parameters = (calls, Inr cleaned)"
  then show "\<exists>kv rest g. xs = JObj kv # rest \<and> get_prop kv ''generated_text'' = JStr g"
    using array_success_needs_first [OF assms] by blast
qed

theorem first_element_read_unguarded_witness:
  \<open>snd (generateFromDefaultEndpoint
      (example_world \<lparr>http_status = 200, http_chunks = Some [''['', '']'']\<rparr>)
      example_model (TGI ''https://tgi.example'' ''Bearer token'') ''</s>'' ''Hello'' None)
     = Inl TypeError
   \<and> snd (generateFromDefaultEndpoint
      (example_world \<lparr>http_status = 200,
         http_chunks = Some [''[{"generated_text":'', ''"Hello continuation STOP"}]'']\<rparr>)
      example_model (TGI ''https://tgi.example'' ''Bearer token'') ''</s>'' ''Hello'' None)
     = Inr '' continuation''\<close>
proof -
  let ?np = "newParameters (model_parameters example_model) None"
  let ?call = "Fetch ''https://tgi.example'' ''Bearer token'' (?np(''inputs'' \<mapsto> JStr ''Hello''))"
  let ?ep = "TGI ''https://tgi.example'' ''Bearer token''"
  have d: "dispatch (example_world r) example_model ?ep ''Hello'' ?np
      = ([?call], Inr (response_of_http r))" for r
    by (simp add: dispatch_def Let_def and_then_def example_world_def)
  have ok: "response_ok (response_of_http \<lparr>http_status = 200, http_chunks = c\<rparr>)" for c
    by (simp add: response_ok_def response_of_http_def)
  have b: "body_stream (response_of_http \<lparr>http_status = 200, http_chunks = Some cs\<rparr>)
      = Some (map Uint8Array cs, None)" for cs
    by (simp add: response_of_http_def)
  have p: "JSON_parse (example_world r) = example_JSON_parse" for r
    by (simp add: example_world_def)
  have stops: "stop_sequences ?np = [''STOP'']"
    by (simp add: stop_sequences_def newParameters_def example_model_def)
  have c: "clean ''</s>'' ''Hello continuation STOP'' ''Hello'' [''STOP''] = '' continuation''"
    by (simp add: clean_def js_string_defs)
  let ?r1 = "\<lparr>http_status = 200, http_chunks = Some [''['', '']'']\<rparr>"
  have "generateFromDefaultEndpoint (example_world ?r1) example_model ?ep ''</s>'' ''Hello'' None
      = ([?call], Inl TypeError)"
    using first_element_read_unguarded [where sep = "''</s>''", OF d [of ?r1] ok b read_all_bytes]
    by (simp add: p example_JSON_parse_def)
  moreover
  let ?r2 = \<open>\<lparr>http_status = 200,
      http_chunks = Some [''[{"generated_text":'', ''"Hello continuation STOP"}]'']\<rparr>\<close>
  have "generateFromDefaultEndpoint (example_world ?r2) example_model ?ep ''</s>'' ''Hello'' None
      = ([?call], Inr '' continuation'')"
    using first_element_read_unguarded [where sep = "''</s>''", OF d [of ?r2] ok b read_all_bytes]
    by (simp add: p example_JSON_parse_def get_prop_def stops c)
  ultimately show ?thesis
    by simp
qed

end
